theory Spec2Isabelle
  imports Complex_Main "HOL-Library.Word" "HOL-Library.Sublist" "HOL-Library.Multiset"
begin

unbundle bit_operations_syntax

section \<open>Scene objects\<close>

text \<open>
  The exporters read a tree of scene objects. Floating-point numbers of the scene are
  idealised as reals; unbounded Python integers are \<open>int\<close> or \<open>nat\<close>.
  Only the roles (\<open>SollumType\<close>) the two exporters test are named; every other member
  of the enumeration is \<open>OTHER_SOLLUM_TYPE\<close>.
\<close>

datatype SollumType =
    DRAWABLE
  | YMAP_ENTITY_GROUP
  | YMAP_BOX_OCCLUDER_GROUP
  | YMAP_MODEL_OCCLUDER_GROUP
  | YMAP_CAR_GENERATOR_GROUP
  | YMAP_BOX_OCCLUDER
  | YMAP_MODEL_OCCLUDER
  | YMAP_CAR_GENERATOR
  | OTHER_SOLLUM_TYPE string

datatype SollumzGame = GTA | RDR

datatype Vector = Vector (vx: real) (vy: real) (vz: real)

text \<open>
  An Euler rotation: three angles and the order in which the turns about the axes are
  made (the rotation mode of the object; \<open>XYZ\<close> turns about X first).
\<close>

datatype EulerOrder = XYZ | XZY | YXZ | YZX | ZXY | ZYX

datatype Euler = Euler (rot_x: real) (rot_y: real) (rot_z: real) (rot_order: EulerOrder)

datatype Quaternion = Quaternion (qw: real) (qx: real) (qy: real) (qz: real)

datatype Row = Row real real real real

datatype Matrix = Matrix Row Row Row Row

text \<open>A mesh: the coordinates of its vertices, and for each polygon its vertex indices.\<close>

datatype mesh = Mesh (vertices: "Vector list") (polygons: "nat list list")

text \<open>
  The property groups of an object are declared outside the two exporters. A numeric
  property that the exporter passes through \<open>int\<close> is kept as a real, which an
  integer property is as well; every other property has the type of the use the
  exporter makes of it.
\<close>

record entity_properties =
  ep_flags :: real
  ep_guid :: real
  ep_parent_index :: real
  ep_lod_dist :: real
  ep_child_lod_dist :: real
  ep_lod_level :: string
  ep_num_children :: real
  ep_priority_level :: string
  ep_ambient_occlusion_multiplier :: real
  ep_artificial_ambient_occlusion :: real
  ep_tint_value :: real
  ep_blend_age_layer :: real
  ep_blend_age_dirt :: real

record cargen_properties =
  cp_perpendicular_length :: real
  cp_car_model :: string
  cp_cargen_flags :: int
  cp_body_color_remap_1 :: int
  cp_body_color_remap_2 :: int
  cp_body_color_remap_3 :: int
  cp_body_color_remap_4 :: int
  cp_pop_group :: string
  cp_livery :: int

record model_occl_properties =
  mp_model_occl_flags :: int

record block_properties =
  bp_version :: int
  bp_flags :: int
  bp_name :: string
  bp_exported_by :: string
  bp_owner :: string
  bp_time :: string

text \<open>
  Modelled from the spec: the declaration of the content flags of a map container,
  which is outside the two exporters. The content flags are a bit field with one bit
  that says the map has occlusion. The exporter writes that bit through the toggle
  \<open>content_flags_toggle.has_occl\<close> and reads the bit field back as \<open>content_flags\<close>;
  the field is kept as that toggle and the remaining bits.
\<close>

record content_flags =
  has_occl :: bool
  other_content_bits :: int

record ymap_properties =
  yp_parent :: string
  yp_flags :: int
  yp_content_flags :: content_flags
  yp_entities_extents_min :: Vector
  yp_entities_extents_max :: Vector
  yp_streaming_extents_min :: Vector
  yp_streaming_extents_max :: Vector
  yp_block :: block_properties

datatype obj = Obj
  (name: string)
  (sollum_type: SollumType)
  (obj_type: string)
  (sollum_game_type: SollumzGame)
  (children: "obj list")
  (location: Vector)
  (rotation_euler: Euler)
  (scale: Vector)
  (dimensions: Vector)
  (matrix_world: Matrix)
  (data: "mesh option")
  (entity_properties: entity_properties)
  (ymap_cargen_properties: cargen_properties)
  (ymap_model_occl_properties: model_occl_properties)
  (ymap_properties: ymap_properties)

text \<open>Assignments to attributes of an object.\<close>

fun set_name :: "string \<Rightarrow> obj \<Rightarrow> obj" where
  "set_name n (Obj _ st ty g cs l r s d m da ep cp mp yp) = Obj n st ty g cs l r s d m da ep cp mp yp"

fun set_children :: "obj list \<Rightarrow> obj \<Rightarrow> obj" where
  "set_children cs (Obj n st ty g _ l r s d m da ep cp mp yp) = Obj n st ty g cs l r s d m da ep cp mp yp"

fun set_data :: "mesh option \<Rightarrow> obj \<Rightarrow> obj" where
  "set_data da (Obj n st ty g cs l r s d m _ ep cp mp yp) = Obj n st ty g cs l r s d m da ep cp mp yp"

fun set_ymap_properties :: "ymap_properties \<Rightarrow> obj \<Rightarrow> obj" where
  "set_ymap_properties yp (Obj n st ty g cs l r s d m da ep cp mp _) = Obj n st ty g cs l r s d m da ep cp mp yp"

text \<open>
  What an export can raise: the failed assertion of \<open>model_from_obj\<close>, an attribute
  read on an object without a mesh, the switch to edit mode asked of such an object,
  and whatever the drawable encoder raises.
\<close>

datatype error = AssertionError | AttributeError | TypeError | CollaboratorError string

section \<open>The drawable-set exporter (ydd/yddexport.py)\<close>

type_synonym Skeleton = string

record Drawable =
  d_name :: string
  d_hash :: string
  d_skeleton :: "Skeleton option"

datatype ydd_xml = DrawableDictionary "Drawable list" | RDR2DrawableDictionary "Drawable list"

text \<open>
  The collaborators of the drawable-set exporter that live outside these two files: the
  drawable encoder of \<open>ydr.ydrexport\<close> (called with the child and the keyword argument
  \<open>armature_obj\<close>; it may raise) and the two hash functions of \<open>tools.jenkhash\<close>.
\<close>

record ydd_ext =
  create_drawable_xml :: "obj \<Rightarrow> obj option \<Rightarrow> error + Drawable"
  name_to_hash :: "string \<Rightarrow> 32 word"
  name_to_hash_literal :: "string \<Rightarrow> 32 word"

fun find_ydd_armature_in :: "obj list \<Rightarrow> obj option" where
  "find_ydd_armature_in [] = None"
| "find_ydd_armature_in (child # rest) =
     (if obj_type child = ''ARMATURE'' then Some child else find_ydd_armature_in rest)"

definition find_ydd_armature :: "obj \<Rightarrow> obj option" where
  "find_ydd_armature ydd_obj = find_ydd_armature_in (children ydd_obj)"

text \<open>Python's \<open>str.split\<close> with a one-character separator.\<close>

fun split :: "char \<Rightarrow> string \<Rightarrow> string list" where
  "split sep [] = [[]]"
| "split sep (c # cs) =
     (if c = sep then [] # split sep cs
      else (case split sep cs of [] \<Rightarrow> [[c]] | p # ps \<Rightarrow> (c # p) # ps))"

definition get_hash :: "ydd_ext \<Rightarrow> Drawable \<Rightarrow> 32 word" where
  "get_hash ext item = name_to_hash ext (hd (split CHR ''.'' (d_name item)))"

definition rdr_get_hash_literal :: "ydd_ext \<Rightarrow> Drawable \<Rightarrow> 32 word" where
  "rdr_get_hash_literal ext item = name_to_hash_literal ext (d_hash item)"

text \<open>
  The loop over the children of the container. Its state is the sequence of drawables
  appended so far and the trace of the calls made to the drawable encoder, each with
  the child and the armature argument it was given. An error of the encoder ends the loop.
\<close>

record ydd_state =
  appended :: "Drawable list"
  calls :: "(obj \<times> obj option) list"

fun ydd_loop :: "ydd_ext \<Rightarrow> bool \<Rightarrow> obj option \<Rightarrow> obj list \<Rightarrow> ydd_state \<Rightarrow> ydd_state \<times> error option" where
  "ydd_loop ext exclude_skeleton ydd_armature [] st = (st, None)"
| "ydd_loop ext exclude_skeleton ydd_armature (child # rest) st =
     (if sollum_type child \<noteq> DRAWABLE then ydd_loop ext exclude_skeleton ydd_armature rest st
      else
        let armature_obj = (if obj_type child \<noteq> ''ARMATURE'' then ydd_armature else None);
            st1 = st\<lparr>calls := calls st @ [(child, armature_obj)]\<rparr>
        in case create_drawable_xml ext child armature_obj of
             Inl e \<Rightarrow> (st1, Some e)
           | Inr drawable_xml \<Rightarrow>
               let d1 = drawable_xml\<lparr>d_name := d_name drawable_xml @ ''.#dd''\<rparr>;
                   d2 = (if exclude_skeleton \<or> obj_type child \<noteq> ''ARMATURE''
                         then d1\<lparr>d_skeleton := None\<rparr> else d1)
               in ydd_loop ext exclude_skeleton ydd_armature rest (st1\<lparr>appended := appended st1 @ [d2]\<rparr>))"

text \<open>
  \<open>create_ydd_xml\<close> returns the trace of encoder calls and either the error raised or
  the dictionary. The current game is the one set at entry from the container;
  \<open>list.sort(key=...)\<close> is a stable ascending sort, as \<open>sort_key\<close> is.
\<close>

definition create_ydd_xml :: "ydd_ext \<Rightarrow> obj \<Rightarrow> bool \<Rightarrow> (obj \<times> obj option) list \<times> (error + ydd_xml)" where
  "create_ydd_xml ext ydd_obj exclude_skeleton =
     (let current_game = sollum_game_type ydd_obj;
          ydd_armature = (if obj_type ydd_obj \<noteq> ''ARMATURE'' then find_ydd_armature ydd_obj
                          else Some ydd_obj);
          (st, err) = ydd_loop ext exclude_skeleton ydd_armature (children ydd_obj)
                        \<lparr>appended = [], calls = []\<rparr>
      in case err of
           Some e \<Rightarrow> (calls st, Inl e)
         | None \<Rightarrow>
             (calls st,
              Inr (case current_game of
                     GTA \<Rightarrow> DrawableDictionary (sort_key (get_hash ext) (appended st))
                   | RDR \<Rightarrow> RDR2DrawableDictionary (sort_key (rdr_get_hash_literal ext) (appended st)))))"

definition drawables_of :: "ydd_xml \<Rightarrow> Drawable list" where
  "drawables_of y = (case y of DrawableDictionary ds \<Rightarrow> ds | RDR2DrawableDictionary ds \<Rightarrow> ds)"

section \<open>The map-data exporter (ymap/ymapexport.py)\<close>

subsection \<open>Python primitives\<close>

text \<open>
  \<open>round\<close> on a float rounds to the nearest integer, a tie to the even one; \<open>int\<close> on
  a number truncates towards zero.
\<close>

definition py_round :: "real \<Rightarrow> int" where
  "py_round r =
     (let f = \<lfloor>r\<rfloor>; d = r - of_int f
      in if d < 1 / 2 then f else if 1 / 2 < d then f + 1 else if even f then f else f + 1)"

definition py_int :: "real \<Rightarrow> int" where
  "py_int r = (if 0 \<le> r then \<lfloor>r\<rfloor> else \<lceil>r\<rceil>)"

text \<open>
  A Python string is kept as the list of the bytes of its UTF-8 form: a search for
  ASCII text finds the same occurrences in the bytes as in the characters.
  \<open>str.replace(old, new)\<close> for a non-empty \<open>old\<close>: every occurrence, leftmost first
  and without overlap. The counter is the number of characters of a match still to skip.
\<close>

fun replace_from :: "string \<Rightarrow> string \<Rightarrow> nat \<Rightarrow> string \<Rightarrow> string" where
  "replace_from old new k [] = []"
| "replace_from old new (Suc k) (c # cs) = replace_from old new k cs"
| "replace_from old new 0 (c # cs) =
     (if prefix old (c # cs) then new @ replace_from old new (length old - 1) cs
      else c # replace_from old new 0 cs)"

definition replace :: "string \<Rightarrow> string \<Rightarrow> string \<Rightarrow> string" where
  "replace old new s = replace_from old new 0 s"

text \<open>
  \<open>re.sub(" \(not found\)", "", s)\<close>: the pattern matches the literal text
  \<open> (not found)\<close>, so the substitution is a replacement of that text by nothing.
\<close>

definition re_sub_not_found :: "string \<Rightarrow> string" where
  "re_sub_not_found s = replace '' (not found)'' [] s"

subsection \<open>Records of the map archive\<close>

record BoxOccluder =
  bo_center_x :: int
  bo_center_y :: int
  bo_center_z :: int
  bo_length :: int
  bo_width :: int
  bo_height :: int
  bo_sin_z :: int
  bo_cos_z :: int

record OccludeModel =
  om_bmin :: Vector
  om_bmax :: Vector
  om_verts :: "8 word list"
  om_num_verts_in_bytes :: int
  om_num_tris :: int
  om_data_size :: int
  om_flags :: int

record Entity =
  e_type :: string
  e_archetype_name :: string
  e_flags :: int
  e_guid :: int
  e_position :: Vector
  e_rotation :: Quaternion
  e_scale_xy :: real
  e_scale_z :: real
  e_parent_index :: int
  e_lod_dist :: real
  e_child_lod_dist :: real
  e_lod_level :: string
  e_num_children :: int
  e_priority_level :: string
  e_ambient_occlusion_multiplier :: int
  e_artificial_ambient_occlusion :: int
  e_tint_value :: int
  e_blend_age_layer :: int
  e_blend_age_dirt :: int

record CarGenerator =
  cg_position :: Vector
  cg_orient_x :: real
  cg_orient_y :: real
  cg_perpendicular_length :: real
  cg_car_model :: string
  cg_flags :: int
  cg_body_color_remap_1 :: int
  cg_body_color_remap_2 :: int
  cg_body_color_remap_3 :: int
  cg_body_color_remap_4 :: int
  cg_pop_group :: string
  cg_livery :: int

text \<open>
  The block of a map record. An assignment to an attribute the class does not declare
  creates that attribute: \<open>b_versiflagson\<close> is \<open>None\<close> while the attribute is absent.
\<close>

record Block =
  b_version :: int
  b_flags :: int
  b_name :: string
  b_exported_by :: string
  b_owner :: string
  b_time :: string
  b_versiflagson :: "int option"

record CMapData =
  m_name :: string
  m_parent :: string
  m_flags :: int
  m_content_flags :: content_flags
  m_entities_extents_min :: Vector
  m_entities_extents_max :: Vector
  m_streaming_extents_min :: Vector
  m_streaming_extents_max :: Vector
  m_entities :: "Entity list"
  m_box_occluders :: "BoxOccluder list"
  m_occlude_models :: "OccludeModel list"
  m_car_generators :: "CarGenerator list"
  m_block :: Block

subsection \<open>Settings, collaborators and diagnostics\<close>

text \<open>The four settings of \<open>get_export_settings()\<close> that the map exporter tests.\<close>

record export_settings =
  ymap_exclude_entities :: bool
  ymap_box_occluders :: bool
  ymap_model_occluders :: bool
  ymap_car_generators :: bool

text \<open>
  What the map exporter uses from outside its file: the helpers of \<open>tools\<close>, the
  operations of \<open>mathutils\<close>, \<open>bpy.ops\<close> and \<open>numpy\<close>, the table of role names, the
  current game, and the records that the constructors \<open>Entity()\<close> and \<open>CMapData()\<close> of
  \<open>cwxml.ymap\<close> return. \<open>quads_convert_to_tris\<close> stands for the sequence of operators
  that \<open>triangulate_obj\<close> runs on the mesh of the active object. \<open>str_lower\<close> and
  \<open>str_upper\<close> are \<open>str.lower\<close> and \<open>str.upper\<close>, which know every letter of
  Unicode. \<open>assign_name\<close> gives the name an object has after an assignment to
  \<open>obj.name\<close>: Blender keeps the names of objects distinct and adds a numeric suffix to
  the name asked for when another object has it; within one export, which visits an
  object once, that name is a function of the object and of the name asked for.
\<close>

text \<open>
  Modelled from the spec: the helper \<open>generate_ymap_extents\<close> of \<open>tools.ymaphelper\<close>,
  which is outside the two exporters. It recomputes two pairs of bounds, the entity
  extents and the streaming extents, from the container as it is, and writes them onto
  the properties of the container. The field of that name gives the two pairs, each a
  minimum and a maximum; \<open>ymap_from_object\<close> below writes them.
\<close>

record ymap_ext =
  get_extents :: "obj \<Rightarrow> Vector \<times> Vector"
  get_bound_center_from_bounds :: "Vector \<Rightarrow> Vector \<Rightarrow> Vector"
  remove_number_suffix :: "string \<Rightarrow> string"
  generate_ymap_extents :: "obj \<Rightarrow> (Vector \<times> Vector) \<times> (Vector \<times> Vector)"
  str_lower :: "string \<Rightarrow> string"
  str_upper :: "string \<Rightarrow> string"
  assign_name :: "obj \<Rightarrow> string \<Rightarrow> string"
  rotate :: "Euler \<Rightarrow> Vector \<Rightarrow> Vector"
  to_quaternion :: "Euler \<Rightarrow> Quaternion"
  invert :: "Quaternion \<Rightarrow> Quaternion"
  quads_convert_to_tris :: "mesh \<Rightarrow> mesh"
  float32 :: "real \<Rightarrow> 32 word"
  SOLLUMZ_UI_NAMES :: "SollumType \<Rightarrow> string"
  current_game :: SollumzGame
  new_Entity :: Entity
  new_CMapData :: CMapData

datatype severity = ERROR | WARNING

text \<open>
  The state an export threads through its loops: the record under construction, the
  diagnostics logged so far, the property group of the container (the loop writes its
  \<open>has_occl\<close> toggle) and the object the export last made the active one, if any.
\<close>

record export_state =
  st_ymap :: CMapData
  st_log :: "(severity \<times> string) list"
  st_props :: ymap_properties
  st_active :: "string option"

definition logger :: "severity \<Rightarrow> string \<Rightarrow> export_state \<Rightarrow> export_state" where
  "logger sev msg st = st\<lparr>st_log := st_log st @ [(sev, msg)]\<rparr>"

definition set_has_occl :: "export_state \<Rightarrow> export_state" where
  "set_has_occl st =
     st\<lparr>st_props := (st_props st)\<lparr>yp_content_flags := (yp_content_flags (st_props st))\<lparr>has_occl := True\<rparr>\<rparr>\<rparr>"

subsection \<open>Box occluders\<close>

definition box_from_obj :: "ymap_ext \<Rightarrow> obj \<Rightarrow> BoxOccluder" where
  "box_from_obj ext obj =
     (let (bbmin, bbmax) = get_extents ext obj;
          center = get_bound_center_from_bounds ext bbmin bbmax;
          dims = dimensions obj;
          dir = rotate ext (rotation_euler obj) (Vector 1 0 0);
          dir = Vector (vx dir * 0.5) (vy dir * 0.5) (vz dir * 0.5)
      in \<lparr>bo_center_x = py_round (vx center * 4),
          bo_center_y = py_round (vy center * 4),
          bo_center_z = py_round (vz center * 4),
          bo_length = py_round (vx dims * 4),
          bo_width = py_round (vy dims * 4),
          bo_height = py_round (vz dims * 4),
          bo_sin_z = py_round (vx dir * 32767),
          bo_cos_z = py_round (vy dir * 32767)\<rparr>)"

subsection \<open>Model occluders\<close>

text \<open>
  \<open>triangulate_obj\<close> makes the object the active one and converts its mesh in place.
  An object without a mesh has no edit mode, and the switch to it raises. The operators
  work on the state of Blender: of what they do, the mesh of the object as the exporter
  reads it (vertices and polygons) is kept here. The selection within the mesh and the
  mode of the object, which the exporter does not read, are not; and the mesh is taken
  to be the object's own, with no other object in edit mode beside it.
\<close>

definition triangulate_obj :: "ymap_ext \<Rightarrow> obj \<Rightarrow> export_state \<Rightarrow> obj \<times> export_state \<times> error option" where
  "triangulate_obj ext obj st =
     (let st1 = st\<lparr>st_active := Some (name obj)\<rparr>
      in case data obj of
           None \<Rightarrow> (obj, st1, Some TypeError)
         | Some m \<Rightarrow> (set_data (Some (quads_convert_to_tris ext m)) obj, st1, None))"

fun matmul :: "Matrix \<Rightarrow> Vector \<Rightarrow> Vector" where
  "matmul (Matrix (Row a1 a2 a3 a4) (Row b1 b2 b3 b4) (Row c1 c2 c3 c4) r4) (Vector x y z) =
     Vector (a1 * x + a2 * y + a3 * z + a4) (b1 * x + b2 * y + b3 * z + b4)
            (c1 * x + c2 * y + c3 * z + c4)"

text \<open>The four bytes of a 32-bit value, least significant first.\<close>

definition word_bytes :: "32 word \<Rightarrow> 8 word list" where
  "word_bytes w = [ucast w, ucast (drop_bit 8 w), ucast (drop_bit 16 w), ucast (drop_bit 24 w)]"

definition vector_bytes :: "ymap_ext \<Rightarrow> Vector \<Rightarrow> 8 word list" where
  "vector_bytes ext v =
     word_bytes (float32 ext (vx v)) @ word_bytes (float32 ext (vy v)) @ word_bytes (float32 ext (vz v))"

text \<open>
  The buffer: the world coordinates of every vertex as 32-bit floats, then every
  polygon's vertex indices as 8-bit integers. The conversion of an index to
  \<open>numpy.uint8\<close> keeps its low eight bits.
\<close>

definition occlusion_model_obj_get_data_buffer :: "ymap_ext \<Rightarrow> obj \<Rightarrow> mesh \<Rightarrow> 8 word list" where
  "occlusion_model_obj_get_data_buffer ext obj mesh =
     (let verts = map (\<lambda>v. matmul (matrix_world obj) v) (vertices mesh);
          indices = map (\<lambda>i. (of_nat i :: 8 word)) (concat (polygons mesh))
      in concat (map (vector_bytes ext) verts) @ indices)"

definition model_from_obj :: "ymap_ext \<Rightarrow> obj \<Rightarrow> export_state \<Rightarrow> obj \<times> export_state \<times> (error + OccludeModel)" where
  "model_from_obj ext obj st =
     (case triangulate_obj ext obj st of
        (obj1, st1, Some e) \<Rightarrow> (obj1, st1, Inl e)
      | (obj1, st1, None) \<Rightarrow>
          (case data obj1 of
             None \<Rightarrow> (obj1, st1, Inl AttributeError)
           | Some mesh \<Rightarrow>
               let (bmin, bmax) = get_extents ext obj1;
                   verts = occlusion_model_obj_get_data_buffer ext obj1 mesh;
                   num_verts_in_bytes = int (length (vertices mesh)) * 12;
                   face_count = int (length (polygons mesh));
                   model = \<lparr>om_bmin = bmin, om_bmax = bmax, om_verts = verts,
                            om_num_verts_in_bytes = num_verts_in_bytes,
                            om_num_tris = face_count OR 0x8000,
                            om_data_size = int (length verts),
                            om_flags = mp_model_occl_flags (ymap_model_occl_properties obj1)\<rparr>
               in if om_data_size model = om_num_verts_in_bytes model + face_count * 3
                  then (obj1, st1, Inr model)
                  else (obj1, st1, Inl AssertionError)))"

subsection \<open>Entities\<close>

text \<open>
  \<open>entity_from_obj\<close> first assigns to \<open>obj.name\<close>; it returns the object as it has
  become together with the record. The fields of \<open>Entity()\<close> that it does not assign
  keep what the constructor gave them. The name the object has afterwards, which the
  routine reads back for the archetype name, is the one \<open>assign_name\<close> gives.
\<close>

definition entity_from_obj :: "ymap_ext \<Rightarrow> obj \<Rightarrow> obj \<times> Entity" where
  "entity_from_obj ext obj0 =
     (let obj = set_name (assign_name ext obj0 (re_sub_not_found (str_lower ext (name obj0)))) obj0;
          props = entity_properties obj;
          entity = new_Entity ext;
          entity = entity\<lparr>e_archetype_name := remove_number_suffix ext (name obj),
                          e_flags := py_int (ep_flags props),
                          e_guid := py_int (ep_guid props),
                          e_position := location obj,
                          e_rotation := to_quaternion ext (rotation_euler obj)\<rparr>;
          entity = (if e_type entity \<noteq> ''CMloInstanceDef''
                    then entity\<lparr>e_rotation := invert ext (e_rotation entity)\<rparr> else entity);
          entity = entity\<lparr>e_scale_xy := vx (scale obj),
                          e_scale_z := vz (scale obj),
                          e_parent_index := py_int (ep_parent_index props),
                          e_lod_dist := ep_lod_dist props,
                          e_child_lod_dist := ep_child_lod_dist props,
                          e_lod_level := replace ''SOLLUMZ_'' [] (str_upper ext (ep_lod_level props)),
                          e_num_children := py_int (ep_num_children props),
                          e_priority_level := replace ''SOLLUMZ_'' [] (str_upper ext (ep_priority_level props)),
                          e_ambient_occlusion_multiplier := py_int (ep_ambient_occlusion_multiplier props),
                          e_artificial_ambient_occlusion := py_int (ep_artificial_ambient_occlusion props),
                          e_tint_value := py_int (ep_tint_value props)\<rparr>;
          entity = (if current_game ext = RDR
                    then entity\<lparr>e_blend_age_layer := py_int (ep_blend_age_layer props),
                                 e_blend_age_dirt := py_int (ep_blend_age_dirt props)\<rparr>
                    else entity)
      in (obj, entity))"

subsection \<open>Car generators\<close>

definition calculate_cargen_orient :: "obj \<Rightarrow> real \<times> real" where
  "calculate_cargen_orient obj = (let angle = rot_z (rotation_euler obj) * -1 in (5 * sin angle, 5 * cos angle))"

definition cargen_from_obj :: "obj \<Rightarrow> CarGenerator" where
  "cargen_from_obj obj =
     (let (orient_x, orient_y) = calculate_cargen_orient obj;
          props = ymap_cargen_properties obj
      in \<lparr>cg_position = location obj,
          cg_orient_x = orient_x,
          cg_orient_y = orient_y,
          cg_perpendicular_length = cp_perpendicular_length props,
          cg_car_model = cp_car_model props,
          cg_flags = cp_cargen_flags props,
          cg_body_color_remap_1 = cp_body_color_remap_1 props,
          cg_body_color_remap_2 = cp_body_color_remap_2 props,
          cg_body_color_remap_3 = cp_body_color_remap_3 props,
          cg_body_color_remap_4 = cp_body_color_remap_4 props,
          cg_pop_group = cp_pop_group props,
          cg_livery = cp_livery props\<rparr>)"

subsection \<open>The export of a map container\<close>

text \<open>
  The four inner loops of \<open>ymap_from_object\<close>, one for each kind of group. Each takes
  the children of the group and the state. The loops over entities and over model
  occluders change the objects they visit and return them as they have become; the loop
  over model occluders ends at the first error raised, leaving the rest unvisited. An
  object of the model-occluder role that has no mesh raises where the loop reads its
  vertices.
\<close>

fun entities_loop :: "ymap_ext \<Rightarrow> obj list \<Rightarrow> export_state \<Rightarrow> obj list \<times> export_state" where
  "entities_loop ext [] st = ([], st)"
| "entities_loop ext (entity_obj # rest) st =
     (let (obj1, entity) = entity_from_obj ext entity_obj;
          st1 = st\<lparr>st_ymap := (st_ymap st)\<lparr>m_entities := m_entities (st_ymap st) @ [entity]\<rparr>\<rparr>;
          (rest1, st2) = entities_loop ext rest st1
      in (obj1 # rest1, st2))"

fun box_loop :: "ymap_ext \<Rightarrow> obj list \<Rightarrow> export_state \<Rightarrow> export_state" where
  "box_loop ext [] st = st"
| "box_loop ext (box_obj # rest) st =
     (let rotation = rotation_euler box_obj
      in if \<bar>rot_x rotation\<bar> > 0.01 \<or> \<bar>rot_y rotation\<bar> > 0.01
         then box_loop ext rest
                (logger ERROR (''Box occluders only support Z-axis rotation. Skipping '' @ name box_obj
                     @ '' due to X/Y rotation.'') st)
         else if sollum_type box_obj = YMAP_BOX_OCCLUDER
         then box_loop ext rest
                (st\<lparr>st_ymap := (st_ymap st)\<lparr>m_box_occluders :=
                       m_box_occluders (st_ymap st) @ [box_from_obj ext box_obj]\<rparr>\<rparr>)
         else box_loop ext rest
                (logger WARNING (''Object '' @ name box_obj @ '' will be skipped because it is not a ''
                     @ SOLLUMZ_UI_NAMES ext YMAP_BOX_OCCLUDER @ '' type.'') st))"

fun model_loop :: "ymap_ext \<Rightarrow> obj list \<Rightarrow> export_state \<Rightarrow> obj list \<times> export_state \<times> error option" where
  "model_loop ext [] st = ([], st, None)"
| "model_loop ext (model_obj # rest) st =
     (if sollum_type model_obj = YMAP_MODEL_OCCLUDER
      then (case data model_obj of
              None \<Rightarrow> (model_obj # rest, st, Some AttributeError)
            | Some mesh \<Rightarrow>
                if length (vertices mesh) > 256
                then (let (rest1, st1, err) = model_loop ext rest
                            (logger WARNING (''Object '' @ name model_obj
                               @ '' has too many vertices and will be skipped. It can not have more than 256 vertices.'') st)
                      in (model_obj # rest1, st1, err))
                else (case model_from_obj ext model_obj st of
                        (obj1, st1, Inl e) \<Rightarrow> (obj1 # rest, st1, Some e)
                      | (obj1, st1, Inr model) \<Rightarrow>
                          let (rest1, st2, err) = model_loop ext rest
                                (st1\<lparr>st_ymap := (st_ymap st1)\<lparr>m_occlude_models :=
                                       m_occlude_models (st_ymap st1) @ [model]\<rparr>\<rparr>)
                          in (obj1 # rest1, st2, err)))
      else (let (rest1, st1, err) = model_loop ext rest
                  (logger WARNING (''Object '' @ name model_obj @ '' will be skipped because it is not a ''
                     @ SOLLUMZ_UI_NAMES ext YMAP_MODEL_OCCLUDER @ '' type.'') st)
            in (model_obj # rest1, st1, err)))"

fun cargen_loop :: "ymap_ext \<Rightarrow> obj list \<Rightarrow> export_state \<Rightarrow> export_state" where
  "cargen_loop ext [] st = st"
| "cargen_loop ext (cargen_obj # rest) st =
     (let rotation = rotation_euler cargen_obj
      in if \<bar>rot_x rotation\<bar> > 0.01 \<or> \<bar>rot_y rotation\<bar> > 0.01
         then cargen_loop ext rest
                (logger ERROR (''Car generators only support Z-axis rotation. Skipping '' @ name cargen_obj
                     @ '' due to X/Y rotation.'') st)
         else if sollum_type cargen_obj = YMAP_CAR_GENERATOR
         then cargen_loop ext rest
                (st\<lparr>st_ymap := (st_ymap st)\<lparr>m_car_generators :=
                       m_car_generators (st_ymap st) @ [cargen_from_obj cargen_obj]\<rparr>\<rparr>)
         else cargen_loop ext rest
                (logger WARNING (''Object '' @ name cargen_obj @ '' will be skipped because it is not a ''
                     @ SOLLUMZ_UI_NAMES ext YMAP_CAR_GENERATOR @ '' type.'') st))"

text \<open>
  The body of the loop over the children of the container: four tests in a row, each on
  a setting and on the role of the child. It returns the child as it has become, the
  state and the error raised, if any.
\<close>

definition process_child :: "ymap_ext \<Rightarrow> export_settings \<Rightarrow> obj \<Rightarrow> export_state \<Rightarrow> obj \<times> export_state \<times> error option" where
  "process_child ext settings child st =
     (let (child1, st1) =
            (if ymap_exclude_entities settings = False \<and> sollum_type child = YMAP_ENTITY_GROUP
             then (let (cs, s) = entities_loop ext (children child) st in (set_children cs child, s))
             else (child, st));
          st2 =
            (if ymap_box_occluders settings = False \<and> sollum_type child1 = YMAP_BOX_OCCLUDER_GROUP
             then box_loop ext (children child1) (set_has_occl st1)
             else st1);
          (child3, st3, err) =
            (if ymap_model_occluders settings = False \<and> sollum_type child1 = YMAP_MODEL_OCCLUDER_GROUP
             then (let (cs, s, e) = model_loop ext (children child1) (set_has_occl st2)
                   in (set_children cs child1, s, e))
             else (child1, st2, None))
      in case err of
           Some e \<Rightarrow> (child3, st3, Some e)
         | None \<Rightarrow>
             (child3,
              (if ymap_car_generators settings = False \<and> sollum_type child3 = YMAP_CAR_GENERATOR_GROUP
               then cargen_loop ext (children child3) st3
               else st3),
              None))"

fun children_loop :: "ymap_ext \<Rightarrow> export_settings \<Rightarrow> obj list \<Rightarrow> export_state \<Rightarrow> obj list \<times> export_state \<times> error option" where
  "children_loop ext settings [] st = ([], st, None)"
| "children_loop ext settings (child # rest) st =
     (case process_child ext settings child st of
        (child1, st1, Some e) \<Rightarrow> (child1 # rest, st1, Some e)
      | (child1, st1, None) \<Rightarrow>
          (let (rest1, st2, err) = children_loop ext settings rest st1
           in (child1 # rest1, st2, err)))"

text \<open>
  What an export leaves behind: the container as it has become, the object it last made
  active, the diagnostics it logged, and the error it raised or the record it returned.
\<close>

record export_result =
  scene :: obj
  active_object :: "string option"
  diagnostics :: "(severity \<times> string) list"
  outcome :: "error + CMapData"

definition ymap_from_object :: "ymap_ext \<Rightarrow> export_settings \<Rightarrow> obj \<Rightarrow> export_result" where
  "ymap_from_object ext settings obj =
     (let st0 = \<lparr>st_ymap = new_CMapData ext, st_log = [], st_props = ymap_properties obj,
                 st_active = None\<rparr>;
          (children1, st, err) = children_loop ext settings (children obj) st0;
          obj1 = set_ymap_properties (st_props st) (set_children children1 obj)
      in case err of
           Some e \<Rightarrow>
             \<lparr>scene = obj1, active_object = st_active st, diagnostics = st_log st, outcome = Inl e\<rparr>
         | None \<Rightarrow>
             let ymap = st_ymap st;
                 props = ymap_properties obj1;
                 ymap = ymap\<lparr>m_name := remove_number_suffix ext (name obj1),
                             m_parent := yp_parent props,
                             m_flags := yp_flags props,
                             m_content_flags := yp_content_flags props\<rparr>;
                 ((emin, emax), (smin, smax)) = generate_ymap_extents ext obj1;
                 props = props\<lparr>yp_entities_extents_min := emin,
                               yp_entities_extents_max := emax,
                               yp_streaming_extents_min := smin,
                               yp_streaming_extents_max := smax\<rparr>;
                 obj2 = set_ymap_properties props obj1;
                 ymap = ymap\<lparr>m_entities_extents_min := yp_entities_extents_min props,
                             m_entities_extents_max := yp_entities_extents_max props,
                             m_streaming_extents_min := yp_streaming_extents_min props,
                             m_streaming_extents_max := yp_streaming_extents_max props\<rparr>;
                 block = yp_block props;
                 ymap = ymap\<lparr>m_block := (m_block ymap)\<lparr>b_version := bp_version block\<rparr>\<rparr>;
                 ymap = ymap\<lparr>m_block := (m_block ymap)\<lparr>b_versiflagson := Some (bp_flags block)\<rparr>\<rparr>;
                 ymap = ymap\<lparr>m_block := (m_block ymap)\<lparr>b_name := bp_name block\<rparr>\<rparr>;
                 ymap = ymap\<lparr>m_block := (m_block ymap)\<lparr>b_exported_by := bp_exported_by block\<rparr>\<rparr>;
                 ymap = ymap\<lparr>m_block := (m_block ymap)\<lparr>b_owner := bp_owner block\<rparr>\<rparr>;
                 ymap = ymap\<lparr>m_block := (m_block ymap)\<lparr>b_time := bp_time block\<rparr>\<rparr>
             in \<lparr>scene = obj2, active_object = st_active st, diagnostics = st_log st,
                 outcome = Inr ymap\<rparr>)"

subsection \<open>Notions used to state what the loops do\<close>

text \<open>
  The test on the rotation that the loops over box occluders and car generators make,
  the diagnostics each loop logs for one object, the test that admits a model occluder,
  the object a triangulation leaves, and the record \<open>model_from_obj\<close> builds from a
  triangulated object.
\<close>

definition tilted :: "obj \<Rightarrow> bool" where
  "tilted b = (\<bar>rot_x (rotation_euler b)\<bar> > 0.01 \<or> \<bar>rot_y (rotation_euler b)\<bar> > 0.01)"

definition box_diag :: "ymap_ext \<Rightarrow> obj \<Rightarrow> (severity \<times> string) list" where
  "box_diag ext b =
     (if tilted b
      then [(ERROR, ''Box occluders only support Z-axis rotation. Skipping '' @ name b
                     @ '' due to X/Y rotation.'')]
      else if sollum_type b = YMAP_BOX_OCCLUDER then []
      else [(WARNING, ''Object '' @ name b @ '' will be skipped because it is not a ''
                     @ SOLLUMZ_UI_NAMES ext YMAP_BOX_OCCLUDER @ '' type.'')])"

definition cargen_diag :: "ymap_ext \<Rightarrow> obj \<Rightarrow> (severity \<times> string) list" where
  "cargen_diag ext b =
     (if tilted b
      then [(ERROR, ''Car generators only support Z-axis rotation. Skipping '' @ name b
                     @ '' due to X/Y rotation.'')]
      else if sollum_type b = YMAP_CAR_GENERATOR then []
      else [(WARNING, ''Object '' @ name b @ '' will be skipped because it is not a ''
                     @ SOLLUMZ_UI_NAMES ext YMAP_CAR_GENERATOR @ '' type.'')])"

definition occlude_model_of :: "ymap_ext \<Rightarrow> obj \<Rightarrow> mesh \<Rightarrow> OccludeModel" where
  "occlude_model_of ext obj1 mesh =
     \<lparr>om_bmin = fst (get_extents ext obj1), om_bmax = snd (get_extents ext obj1),
      om_verts = occlusion_model_obj_get_data_buffer ext obj1 mesh,
      om_num_verts_in_bytes = int (length (vertices mesh)) * 12,
      om_num_tris = int (length (polygons mesh)) OR 0x8000,
      om_data_size = int (length (occlusion_model_obj_get_data_buffer ext obj1 mesh)),
      om_flags = mp_model_occl_flags (ymap_model_occl_properties obj1)\<rparr>"

definition model_admitted :: "obj \<Rightarrow> bool" where
  "model_admitted g =
     (sollum_type g = YMAP_MODEL_OCCLUDER \<and>
      (case data g of None \<Rightarrow> False | Some m \<Rightarrow> \<not> length (vertices m) > 256))"

definition triangulated :: "ymap_ext \<Rightarrow> obj \<Rightarrow> obj" where
  "triangulated ext g = set_data (map_option (quads_convert_to_tris ext) (data g)) g"

definition model_diag :: "ymap_ext \<Rightarrow> obj \<Rightarrow> (severity \<times> string) list" where
  "model_diag ext g =
     (if sollum_type g = YMAP_MODEL_OCCLUDER
      then (case data g of
              None \<Rightarrow> []
            | Some m \<Rightarrow>
                if length (vertices m) > 256
                then [(WARNING, ''Object '' @ name g
                        @ '' has too many vertices and will be skipped. It can not have more than 256 vertices.'')]
                else [])
      else [(WARNING, ''Object '' @ name g @ '' will be skipped because it is not a ''
                     @ SOLLUMZ_UI_NAMES ext YMAP_MODEL_OCCLUDER @ '' type.'')])"

text \<open>
  For a child of the container: whether the loop body takes it as a group of each of the
  four kinds, and what the body then appends, logs and leaves of the child when it
  raises nothing.
\<close>

definition entity_group_on :: "export_settings \<Rightarrow> obj \<Rightarrow> bool" where
  "entity_group_on s c = (ymap_exclude_entities s = False \<and> sollum_type c = YMAP_ENTITY_GROUP)"

definition box_group_on :: "export_settings \<Rightarrow> obj \<Rightarrow> bool" where
  "box_group_on s c = (ymap_box_occluders s = False \<and> sollum_type c = YMAP_BOX_OCCLUDER_GROUP)"

definition model_group_on :: "export_settings \<Rightarrow> obj \<Rightarrow> bool" where
  "model_group_on s c = (ymap_model_occluders s = False \<and> sollum_type c = YMAP_MODEL_OCCLUDER_GROUP)"

definition cargen_group_on :: "export_settings \<Rightarrow> obj \<Rightarrow> bool" where
  "cargen_group_on s c = (ymap_car_generators s = False \<and> sollum_type c = YMAP_CAR_GENERATOR_GROUP)"

definition child_entities :: "ymap_ext \<Rightarrow> export_settings \<Rightarrow> obj \<Rightarrow> Entity list" where
  "child_entities ext s c =
     (if entity_group_on s c then map (\<lambda>g. snd (entity_from_obj ext g)) (children c) else [])"

definition child_boxes :: "ymap_ext \<Rightarrow> export_settings \<Rightarrow> obj \<Rightarrow> BoxOccluder list" where
  "child_boxes ext s c =
     (if box_group_on s c
      then map (box_from_obj ext)
             (filter (\<lambda>b. \<not> tilted b \<and> sollum_type b = YMAP_BOX_OCCLUDER) (children c))
      else [])"

definition child_models :: "ymap_ext \<Rightarrow> export_settings \<Rightarrow> obj \<Rightarrow> OccludeModel list" where
  "child_models ext s c =
     (if model_group_on s c
      then map (\<lambda>g. occlude_model_of ext (triangulated ext g) (the (data (triangulated ext g))))
             (filter model_admitted (children c))
      else [])"

definition child_cargens :: "export_settings \<Rightarrow> obj \<Rightarrow> CarGenerator list" where
  "child_cargens s c =
     (if cargen_group_on s c
      then map cargen_from_obj
             (filter (\<lambda>b. \<not> tilted b \<and> sollum_type b = YMAP_CAR_GENERATOR) (children c))
      else [])"

definition child_diags :: "ymap_ext \<Rightarrow> export_settings \<Rightarrow> obj \<Rightarrow> (severity \<times> string) list" where
  "child_diags ext s c =
     (if box_group_on s c then concat (map (box_diag ext) (children c))
      else if model_group_on s c then concat (map (model_diag ext) (children c))
      else if cargen_group_on s c then concat (map (cargen_diag ext) (children c))
      else [])"

definition child_after :: "ymap_ext \<Rightarrow> export_settings \<Rightarrow> obj \<Rightarrow> obj" where
  "child_after ext s c =
     (if entity_group_on s c
      then set_children (map (\<lambda>g. fst (entity_from_obj ext g)) (children c)) c
      else if model_group_on s c
      then set_children (map (\<lambda>g. if model_admitted g then triangulated ext g else g) (children c)) c
      else c)"

text \<open>
  What an export may have done to a child of the container, whatever its outcome: the
  child is as before but for its own children, and each of these is as before, or is an
  object of an entity group with the name it has after the assignment of its
  lower-cased name without the marker of a missing archetype, or is an admitted object
  of a model-occluder group with its mesh triangulated.
\<close>

definition grandchild_rel :: "ymap_ext \<Rightarrow> export_settings \<Rightarrow> obj \<Rightarrow> obj \<Rightarrow> obj \<Rightarrow> bool" where
  "grandchild_rel ext s c g g' =
     (g' = g \<or>
      (entity_group_on s c \<and>
       g' = set_name (assign_name ext g (re_sub_not_found (str_lower ext (name g)))) g) \<or>
      (model_group_on s c \<and> model_admitted g \<and> g' = triangulated ext g))"

definition child_rel :: "ymap_ext \<Rightarrow> export_settings \<Rightarrow> obj \<Rightarrow> obj \<Rightarrow> bool" where
  "child_rel ext s c c' =
     (set_children (children c) c' = c \<and>
      list_all2 (grandchild_rel ext s c) (children c) (children c'))"

text \<open>The state in which \<open>ymap_from_object\<close> enters its loop.\<close>

definition init_state :: "ymap_ext \<Rightarrow> obj \<Rightarrow> export_state" where
  "init_state ext obj =
     \<lparr>st_ymap = new_CMapData ext, st_log = [], st_props = ymap_properties obj, st_active = None\<rparr>"

section \<open>Example scenes\<close>

text \<open>Concrete scenes and collaborators on which the theorems below are run.\<close>

definition demo_matrix :: Matrix where
  "demo_matrix = Matrix (Row 1 0 0 0) (Row 0 1 0 0) (Row 0 0 1 0) (Row 0 0 0 1)"

definition demo_entity_properties :: entity_properties where
  "demo_entity_properties =
     \<lparr>ep_flags = 0, ep_guid = 0, ep_parent_index = 0, ep_lod_dist = 0, ep_child_lod_dist = 0,
      ep_lod_level = ''sollumz_lodtypes_depth_hd'', ep_num_children = 0,
      ep_priority_level = ''sollumz_pri_required'', ep_ambient_occlusion_multiplier = 255,
      ep_artificial_ambient_occlusion = 255, ep_tint_value = 0, ep_blend_age_layer = 0,
      ep_blend_age_dirt = 0\<rparr>"

definition demo_cargen_properties :: cargen_properties where
  "demo_cargen_properties =
     \<lparr>cp_perpendicular_length = 2, cp_car_model = ''panto'', cp_cargen_flags = 0,
      cp_body_color_remap_1 = -1, cp_body_color_remap_2 = -1, cp_body_color_remap_3 = -1,
      cp_body_color_remap_4 = -1, cp_pop_group = [], cp_livery = -1\<rparr>"

definition demo_block :: block_properties where
  "demo_block =
     \<lparr>bp_version = 1, bp_flags = 5, bp_name = ''blk'', bp_exported_by = ''Sollumz'',
      bp_owner = ''me'', bp_time = ''now''\<rparr>"

definition demo_ymap_properties :: ymap_properties where
  "demo_ymap_properties =
     \<lparr>yp_parent = [], yp_flags = 0,
      yp_content_flags = \<lparr>has_occl = False, other_content_bits = 0\<rparr>,
      yp_entities_extents_min = Vector 0 0 0, yp_entities_extents_max = Vector 0 0 0,
      yp_streaming_extents_min = Vector 0 0 0, yp_streaming_extents_max = Vector 0 0 0,
      yp_block = demo_block\<rparr>"

definition demo_obj :: "string \<Rightarrow> SollumType \<Rightarrow> string \<Rightarrow> SollumzGame \<Rightarrow> obj list \<Rightarrow> obj" where
  "demo_obj n st ty g cs =
     Obj n st ty g cs (Vector 0 0 0) (Euler 0 0 0 XYZ) (Vector 1 1 1) (Vector 2 2 2) demo_matrix None
       demo_entity_properties demo_cargen_properties \<lparr>mp_model_occl_flags = 0\<rparr>
       demo_ymap_properties"

definition demo_ydd_ext :: ydd_ext where
  "demo_ydd_ext =
     \<lparr>create_drawable_xml = (\<lambda>child armature_obj.
         Inr \<lparr>d_name = name child, d_hash = name child, d_skeleton = Some ''bones''\<rparr>),
      name_to_hash = (\<lambda>s. of_nat (sum_list (map of_char s))),
      name_to_hash_literal = (\<lambda>s. of_nat (length s))\<rparr>"

definition demo_ydd :: obj where
  "demo_ydd = demo_obj ''set'' (OTHER_SOLLUM_TYPE ''DRAWABLE_DICTIONARY'') ''EMPTY'' GTA
     [demo_obj ''b'' DRAWABLE ''MESH'' GTA [],
      demo_obj ''rig'' DRAWABLE ''ARMATURE'' GTA [],
      demo_obj ''a'' DRAWABLE ''MESH'' GTA []]"

definition demo_ydd_rdr :: obj where
  "demo_ydd_rdr = demo_obj ''set'' (OTHER_SOLLUM_TYPE ''DRAWABLE_DICTIONARY'') ''EMPTY'' RDR
     [demo_obj ''hash_22'' DRAWABLE ''MESH'' RDR [],
      demo_obj ''x'' DRAWABLE ''MESH'' RDR []]"

text \<open>
  The operations of \<open>mathutils\<close> on rotations, in exact arithmetic: a vector is
  turned about the three axes one after the other, in the order of the Euler rotation;
  the quaternion of an Euler rotation is the product of the quaternions of these
  turns; a quaternion is inverted by conjugating it and dividing by its squared length.
\<close>

datatype axis = AxisX | AxisY | AxisZ

fun axes_of :: "EulerOrder \<Rightarrow> axis list" where
  "axes_of XYZ = [AxisX, AxisY, AxisZ]"
| "axes_of XZY = [AxisX, AxisZ, AxisY]"
| "axes_of YXZ = [AxisY, AxisX, AxisZ]"
| "axes_of YZX = [AxisY, AxisZ, AxisX]"
| "axes_of ZXY = [AxisZ, AxisX, AxisY]"
| "axes_of ZYX = [AxisZ, AxisY, AxisX]"

fun angle_of :: "Euler \<Rightarrow> axis \<Rightarrow> real" where
  "angle_of e AxisX = rot_x e"
| "angle_of e AxisY = rot_y e"
| "angle_of e AxisZ = rot_z e"

fun axis_rotate :: "axis \<Rightarrow> real \<Rightarrow> Vector \<Rightarrow> Vector" where
  "axis_rotate AxisX a v = Vector (vx v) (vy v * cos a - vz v * sin a) (vy v * sin a + vz v * cos a)"
| "axis_rotate AxisY a v = Vector (vx v * cos a + vz v * sin a) (vy v) (- vx v * sin a + vz v * cos a)"
| "axis_rotate AxisZ a v = Vector (vx v * cos a - vy v * sin a) (vx v * sin a + vy v * cos a) (vz v)"

definition euler_rotate :: "Euler \<Rightarrow> Vector \<Rightarrow> Vector" where
  "euler_rotate e v = foldl (\<lambda>w ax. axis_rotate ax (angle_of e ax) w) v (axes_of (rot_order e))"

fun axis_quaternion :: "axis \<Rightarrow> real \<Rightarrow> Quaternion" where
  "axis_quaternion AxisX a = Quaternion (cos (a / 2)) (sin (a / 2)) 0 0"
| "axis_quaternion AxisY a = Quaternion (cos (a / 2)) 0 (sin (a / 2)) 0"
| "axis_quaternion AxisZ a = Quaternion (cos (a / 2)) 0 0 (sin (a / 2))"

definition quaternion_mul :: "Quaternion \<Rightarrow> Quaternion \<Rightarrow> Quaternion" where
  "quaternion_mul p q =
     Quaternion (qw p * qw q - qx p * qx q - qy p * qy q - qz p * qz q)
                (qw p * qx q + qx p * qw q + qy p * qz q - qz p * qy q)
                (qw p * qy q - qx p * qz q + qy p * qw q + qz p * qx q)
                (qw p * qz q + qx p * qy q - qy p * qx q + qz p * qw q)"

definition euler_to_quaternion :: "Euler \<Rightarrow> Quaternion" where
  "euler_to_quaternion e =
     foldl (\<lambda>q ax. quaternion_mul (axis_quaternion ax (angle_of e ax)) q) (Quaternion 1 0 0 0)
       (axes_of (rot_order e))"

definition quaternion_invert :: "Quaternion \<Rightarrow> Quaternion" where
  "quaternion_invert q =
     (let n = qw q * qw q + qx q * qx q + qy q * qy q + qz q * qz q
      in Quaternion (qw q / n) (- qx q / n) (- qy q / n) (- qz q / n))"

text \<open>
  \<open>str.lower\<close> and \<open>str.upper\<close> as they are on ASCII text, and the assignment of a
  name that no other object has.
\<close>

definition ascii_lower_char :: "char \<Rightarrow> char" where
  "ascii_lower_char c =
     (case map_of (zip ''ABCDEFGHIJKLMNOPQRSTUVWXYZ'' ''abcdefghijklmnopqrstuvwxyz'') c of
        None \<Rightarrow> c | Some d \<Rightarrow> d)"

definition ascii_upper_char :: "char \<Rightarrow> char" where
  "ascii_upper_char c =
     (case map_of (zip ''abcdefghijklmnopqrstuvwxyz'' ''ABCDEFGHIJKLMNOPQRSTUVWXYZ'') c of
        None \<Rightarrow> c | Some d \<Rightarrow> d)"

definition ascii_lower :: "string \<Rightarrow> string" where
  "ascii_lower s = map ascii_lower_char s"

definition ascii_upper :: "string \<Rightarrow> string" where
  "ascii_upper s = map ascii_upper_char s"

text \<open>
  A triangulation that splits every quadrilateral in two and leaves every other polygon
  as it is, and stand-ins for the remaining collaborators: a box around the location of
  an object as its extents, their midpoint as the centre, names without a suffix to
  strip, and a conversion to 32 bits that keeps the integer part.
\<close>

fun demo_tris :: "nat list list \<Rightarrow> nat list list" where
  "demo_tris [] = []"
| "demo_tris ([a, b, c, d] # ps) = [a, b, c] # [a, c, d] # demo_tris ps"
| "demo_tris (p # ps) = p # demo_tris ps"

definition demo_get_extents :: "obj \<Rightarrow> Vector \<times> Vector" where
  "demo_get_extents obj =
     (Vector (vx (location obj) - vx (dimensions obj) / 2) (vy (location obj) - vy (dimensions obj) / 2)
             (vz (location obj) - vz (dimensions obj) / 2),
      Vector (vx (location obj) + vx (dimensions obj) / 2) (vy (location obj) + vy (dimensions obj) / 2)
             (vz (location obj) + vz (dimensions obj) / 2))"

definition demo_entity :: Entity where
  "demo_entity =
     \<lparr>e_type = ''CEntityDef'', e_archetype_name = [], e_flags = 0, e_guid = 0,
      e_position = Vector 0 0 0, e_rotation = Quaternion 1 0 0 0, e_scale_xy = 1, e_scale_z = 1,
      e_parent_index = 0, e_lod_dist = 0, e_child_lod_dist = 0, e_lod_level = [],
      e_num_children = 0, e_priority_level = [], e_ambient_occlusion_multiplier = 0,
      e_artificial_ambient_occlusion = 0, e_tint_value = 0, e_blend_age_layer = 0,
      e_blend_age_dirt = 0\<rparr>"

definition demo_cmapdata :: CMapData where
  "demo_cmapdata =
     \<lparr>m_name = [], m_parent = [], m_flags = 0,
      m_content_flags = \<lparr>has_occl = False, other_content_bits = 0\<rparr>,
      m_entities_extents_min = Vector 0 0 0, m_entities_extents_max = Vector 0 0 0,
      m_streaming_extents_min = Vector 0 0 0, m_streaming_extents_max = Vector 0 0 0,
      m_entities = [], m_box_occluders = [], m_occlude_models = [], m_car_generators = [],
      m_block = \<lparr>b_version = 0, b_flags = 0, b_name = [], b_exported_by = [], b_owner = [],
                 b_time = [], b_versiflagson = None\<rparr>\<rparr>"

definition demo_ymap_ext :: ymap_ext where
  "demo_ymap_ext =
     \<lparr>get_extents = demo_get_extents,
      get_bound_center_from_bounds =
        (\<lambda>a b. Vector ((vx a + vx b) / 2) ((vy a + vy b) / 2) ((vz a + vz b) / 2)),
      remove_number_suffix = (\<lambda>s. s),
      generate_ymap_extents =
        (\<lambda>obj. ((Vector (-1) (-1) (-1), Vector 1 1 1), (Vector (-2) (-2) (-2), Vector 2 2 2))),
      str_lower = ascii_lower,
      str_upper = ascii_upper,
      assign_name = (\<lambda>obj n. n),
      rotate = euler_rotate,
      to_quaternion = euler_to_quaternion,
      invert = quaternion_invert,
      quads_convert_to_tris = (\<lambda>m. Mesh (vertices m) (demo_tris (polygons m))),
      float32 = (\<lambda>r. word_of_int \<lfloor>r\<rfloor>),
      SOLLUMZ_UI_NAMES = (\<lambda>t. ''Sollumz'' ),
      current_game = GTA,
      new_Entity = demo_entity,
      new_CMapData = demo_cmapdata\<rparr>"

definition demo_settings :: export_settings where
  "demo_settings =
     \<lparr>ymap_exclude_entities = False, ymap_box_occluders = False, ymap_model_occluders = False,
      ymap_car_generators = False\<rparr>"

definition demo_state :: export_state where
  "demo_state =
     \<lparr>st_ymap = demo_cmapdata, st_log = [], st_props = demo_ymap_properties, st_active = None\<rparr>"

text \<open>Objects that differ from \<open>demo_obj\<close> in their rotation or in their mesh.\<close>

definition demo_rotated :: "string \<Rightarrow> SollumType \<Rightarrow> Euler \<Rightarrow> obj" where
  "demo_rotated n st r =
     Obj n st ''MESH'' GTA [] (Vector 0 0 0) r (Vector 1 1 1) (Vector 2 2 2) demo_matrix None
       demo_entity_properties demo_cargen_properties \<lparr>mp_model_occl_flags = 0\<rparr>
       demo_ymap_properties"

definition demo_mesh_obj :: "string \<Rightarrow> SollumType \<Rightarrow> mesh \<Rightarrow> obj" where
  "demo_mesh_obj n st m =
     Obj n st ''MESH'' GTA [] (Vector 0 0 0) (Euler 0 0 0 XYZ) (Vector 1 1 1) (Vector 2 2 2) demo_matrix
       (Some m) demo_entity_properties demo_cargen_properties \<lparr>mp_model_occl_flags = 3\<rparr>
       demo_ymap_properties"

definition demo_quad_obj :: obj where
  "demo_quad_obj = demo_mesh_obj ''occl'' YMAP_MODEL_OCCLUDER
     (Mesh [Vector 0 0 0, Vector 1 0 0, Vector 1 1 0, Vector 0 1 0] [[0, 1, 2, 3]])"

definition demo_pentagon_obj :: obj where
  "demo_pentagon_obj = demo_mesh_obj ''occl5'' YMAP_MODEL_OCCLUDER
     (Mesh [Vector 0 0 0, Vector 1 0 0, Vector 1 1 0, Vector 0 1 0, Vector 0 2 0] [[0, 1, 2, 3, 4]])"

definition demo_full_obj :: obj where
  "demo_full_obj = demo_mesh_obj ''full'' YMAP_MODEL_OCCLUDER
     (Mesh (replicate 256 (Vector 0 0 0)) [[0, 1, 255]])"

text \<open>
  A map container with one group of each kind: an entity whose name carries the marker
  of a missing archetype; a box occluder, a tilted one and an object of another role; a
  model occluder of one quadrilateral; a car generator. And a container whose only
  child is a group of box occluders without children.
\<close>

definition demo_map :: obj where
  "demo_map = demo_obj ''map.001'' (OTHER_SOLLUM_TYPE ''YMAP'') ''EMPTY'' GTA
     [demo_obj ''Entities'' YMAP_ENTITY_GROUP ''EMPTY'' GTA
        [demo_obj ''Prop (not found)'' (OTHER_SOLLUM_TYPE ''DRAWABLE'') ''MESH'' GTA []],
      demo_obj ''Box Occluders'' YMAP_BOX_OCCLUDER_GROUP ''EMPTY'' GTA
        [demo_rotated ''box'' YMAP_BOX_OCCLUDER (Euler 0 0 0 XYZ),
         demo_rotated ''tilted'' YMAP_BOX_OCCLUDER (Euler 1 0 0 XYZ),
         demo_rotated ''stray'' YMAP_CAR_GENERATOR (Euler 0 0 0 XYZ)],
      demo_obj ''Model Occluders'' YMAP_MODEL_OCCLUDER_GROUP ''EMPTY'' GTA [demo_quad_obj],
      demo_obj ''Car Generators'' YMAP_CAR_GENERATOR_GROUP ''EMPTY'' GTA
        [demo_rotated ''cargen'' YMAP_CAR_GENERATOR (Euler 0 0 0 XYZ)]]"

definition demo_map_empty_group :: obj where
  "demo_map_empty_group = demo_obj ''map'' (OTHER_SOLLUM_TYPE ''YMAP'') ''EMPTY'' GTA
     [demo_obj ''Box Occluders'' YMAP_BOX_OCCLUDER_GROUP ''EMPTY'' GTA []]"

text \<open>Settings that switch the box occluders off and leave the rest on.\<close>

definition demo_settings_no_boxes :: export_settings where
  "demo_settings_no_boxes =
     \<lparr>ymap_exclude_entities = False, ymap_box_occluders = True, ymap_model_occluders = False,
      ymap_car_generators = False\<rparr>"

text \<open>
  A container on which the flag \<open>has_occl\<close> is already set and whose model occluder is
  an object without a mesh.
\<close>

definition demo_map_failing :: obj where
  "demo_map_failing =
     set_ymap_properties
       (demo_ymap_properties\<lparr>yp_content_flags := \<lparr>has_occl = True, other_content_bits = 0\<rparr>\<rparr>)
       (demo_obj ''map'' (OTHER_SOLLUM_TYPE ''YMAP'') ''EMPTY'' GTA
          [demo_obj ''Model Occluders'' YMAP_MODEL_OCCLUDER_GROUP ''EMPTY'' GTA
             [demo_obj ''empty'' YMAP_MODEL_OCCLUDER ''EMPTY'' GTA []]])"

text \<open>Settings that switch every category off.\<close>

definition demo_settings_none :: export_settings where
  "demo_settings_none =
     \<lparr>ymap_exclude_entities = True, ymap_box_occluders = True, ymap_model_occluders = True,
      ymap_car_generators = True\<rparr>"

section \<open>Properties of the drawable-set exporter\<close>

lemma split_nonempty: "split sep s \<noteq> []"
  by (induction s) (auto split: list.splits)

lemma hd_split: "hd (split sep s) = takeWhile (\<lambda>c. c \<noteq> sep) s"
  using split_nonempty [of sep] by (induction s) (auto split: list.splits)

lemma ydd_loop_calls_prefix:
  "\<exists>ys. calls (fst (ydd_loop ext excl arm cs st)) = calls st @ ys \<and>
     prefix ys (map (\<lambda>child. (child, if obj_type child = ''ARMATURE'' then None else arm))
        (filter (\<lambda>c. sollum_type c = DRAWABLE) cs))"
proof (induction cs arbitrary: st)
  case Nil
  then show ?case by simp
next
  case (Cons child rest)
  show ?case
  proof (cases "sollum_type child = DRAWABLE")
    case False
    then show ?thesis using Cons.IH [of st] by simp
  next
    case True
    let ?a = "if obj_type child \<noteq> ''ARMATURE'' then arm else None"
    let ?st1 = "st\<lparr>calls := calls st @ [(child, ?a)]\<rparr>"
    show ?thesis
    proof (cases "create_drawable_xml ext child ?a")
      case (Inl e)
      then show ?thesis using True by (auto simp: Let_def)
    next
      case (Inr d)
      let ?d1 = "d\<lparr>d_name := d_name d @ ''.#dd''\<rparr>"
      let ?d2 = "if excl \<or> obj_type child \<noteq> ''ARMATURE'' then ?d1\<lparr>d_skeleton := None\<rparr> else ?d1"
      let ?st2 = "?st1\<lparr>appended := appended ?st1 @ [?d2]\<rparr>"
      have step: "ydd_loop ext excl arm (child # rest) st = ydd_loop ext excl arm rest ?st2"
        using True Inr by (simp add: Let_def)
      from Cons.IH [of ?st2] obtain ys where
        ys: "calls (fst (ydd_loop ext excl arm rest ?st2)) = calls ?st2 @ ys"
          "prefix ys (map (\<lambda>child. (child, if obj_type child = ''ARMATURE'' then None else arm))
              (filter (\<lambda>c. sollum_type c = DRAWABLE) rest))"
        by blast
      show ?thesis
        apply (rule exI [of _ "(child, ?a) # ys"])
        using ys True by (simp add: step del: ydd_loop.simps)
    qed
  qed
qed

lemma ydd_loop_calls_ok:
  "ydd_loop ext excl arm cs st = (st', None) \<Longrightarrow>
   calls st' = calls st @ map (\<lambda>child. (child, if obj_type child = ''ARMATURE'' then None else arm))
        (filter (\<lambda>c. sollum_type c = DRAWABLE) cs)"
proof (induction cs arbitrary: st)
  case Nil
  then show ?case by simp
next
  case (Cons child rest)
  show ?case
  proof (cases "sollum_type child = DRAWABLE")
    case False
    then show ?thesis using Cons.IH [of st] Cons.prems by simp
  next
    case True
    let ?a = "if obj_type child \<noteq> ''ARMATURE'' then arm else None"
    let ?st1 = "st\<lparr>calls := calls st @ [(child, ?a)]\<rparr>"
    show ?thesis
    proof (cases "create_drawable_xml ext child ?a")
      case (Inl e)
      then show ?thesis using True Cons.prems by (auto simp: Let_def)
    next
      case (Inr d)
      let ?d1 = "d\<lparr>d_name := d_name d @ ''.#dd''\<rparr>"
      let ?d2 = "if excl \<or> obj_type child \<noteq> ''ARMATURE'' then ?d1\<lparr>d_skeleton := None\<rparr> else ?d1"
      let ?st2 = "?st1\<lparr>appended := appended ?st1 @ [?d2]\<rparr>"
      have step: "ydd_loop ext excl arm (child # rest) st = ydd_loop ext excl arm rest ?st2"
        using True Inr by (simp add: Let_def)
      from Cons.IH [of ?st2] Cons.prems step
      have "calls st' = calls ?st2 @ map (\<lambda>child. (child, if obj_type child = ''ARMATURE'' then None else arm))
        (filter (\<lambda>c. sollum_type c = DRAWABLE) rest)" by simp
      then show ?thesis using True by (simp del: ydd_loop.simps)
    qed
  qed
qed

lemma find_ydd_armature_in_find:
  "find_ydd_armature_in cs = List.find (\<lambda>c. obj_type c = ''ARMATURE'') cs"
  by (induction cs) auto

lemma demo_run: "snd (create_ydd_xml demo_ydd_ext demo_ydd False) = Inr (DrawableDictionary
      [\<lparr>d_name = ''a.#dd'', d_hash = ''a'', d_skeleton = None\<rparr>,
       \<lparr>d_name = ''b.#dd'', d_hash = ''b'', d_skeleton = None\<rparr>,
       \<lparr>d_name = ''rig.#dd'', d_hash = ''rig'', d_skeleton = Some ''bones''\<rparr>])"
  by (simp add: create_ydd_xml_def demo_ydd_def demo_obj_def demo_ydd_ext_def find_ydd_armature_def
      get_hash_def Let_def)

lemma demo_run_rdr: "snd (create_ydd_xml demo_ydd_ext demo_ydd_rdr True) = Inr (RDR2DrawableDictionary
      [\<lparr>d_name = ''x.#dd'', d_hash = ''x'', d_skeleton = None\<rparr>,
       \<lparr>d_name = ''hash_22.#dd'', d_hash = ''hash_22'', d_skeleton = None\<rparr>])"
  by (simp add: create_ydd_xml_def demo_ydd_rdr_def demo_obj_def demo_ydd_ext_def find_ydd_armature_def
      rdr_get_hash_literal_def Let_def word_le_nat_alt)

text \<open>
  C7: the drawables of the returned dictionary are in ascending order of a 32-bit key.
  For the GTA variant the key is \<open>name_to_hash\<close> of the part of the drawable's name
  before its first period; for the RDR variant it is \<open>name_to_hash_literal\<close> of the
  drawable's hash identifier. The dictionary holds exactly the drawables the loop
  collected. The exporter is a function of its input, so a repeated run gives the same
  order.
\<close>

theorem create_ydd_xml_sorted:
  assumes "snd (create_ydd_xml ext ydd_obj exclude_skeleton) = Inr r"
  shows "(sollum_game_type ydd_obj = GTA \<longrightarrow>
            (\<exists>ds. r = DrawableDictionary ds \<and>
               sorted (map (\<lambda>d. name_to_hash ext (takeWhile (\<lambda>c. c \<noteq> CHR ''.'') (d_name d))) ds))) \<and>
         (sollum_game_type ydd_obj = RDR \<longrightarrow>
            (\<exists>ds. r = RDR2DrawableDictionary ds \<and>
               sorted (map (\<lambda>d. name_to_hash_literal ext (d_hash d)) ds))) \<and>
         mset (drawables_of r) =
           mset (appended (fst (ydd_loop ext exclude_skeleton
                   (if obj_type ydd_obj \<noteq> ''ARMATURE'' then find_ydd_armature ydd_obj else Some ydd_obj)
                   (children ydd_obj) \<lparr>appended = [], calls = []\<rparr>)))"
proof -
  let ?arm = "if obj_type ydd_obj \<noteq> ''ARMATURE'' then find_ydd_armature ydd_obj else Some ydd_obj"
  let ?run = "ydd_loop ext exclude_skeleton ?arm (children ydd_obj) \<lparr>appended = [], calls = []\<rparr>"
  obtain st err where run: "?run = (st, err)" by (cases ?run)
  have key1: "get_hash ext = (\<lambda>d. name_to_hash ext (takeWhile (\<lambda>c. c \<noteq> CHR ''.'') (d_name d)))"
    by (rule ext) (simp add: get_hash_def hd_split)
  have key2: "rdr_get_hash_literal ext = (\<lambda>d. name_to_hash_literal ext (d_hash d))"
    by (rule ext) (simp add: rdr_get_hash_literal_def)
  from assms run have err: "err = None"
    by (auto simp: create_ydd_xml_def Let_def split: option.splits)
  from assms run err have r:
    "r = (case sollum_game_type ydd_obj of
            GTA \<Rightarrow> DrawableDictionary (sort_key (get_hash ext) (appended st))
          | RDR \<Rightarrow> RDR2DrawableDictionary (sort_key (rdr_get_hash_literal ext) (appended st)))"
    by (simp add: create_ydd_xml_def Let_def)
  show ?thesis
  proof (cases "sollum_game_type ydd_obj")
    case GTA
    have "sorted (map (get_hash ext) (sort_key (get_hash ext) (appended st)))"
      by (rule sorted_sort_key)
    then show ?thesis using GTA r run by (simp add: key1 drawables_of_def)
  next
    case RDR
    have "sorted (map (rdr_get_hash_literal ext) (sort_key (rdr_get_hash_literal ext) (appended st)))"
      by (rule sorted_sort_key)
    then show ?thesis using RDR r run by (simp add: key2 drawables_of_def)
  qed
qed

theorem create_ydd_xml_sorted_witness:
  "snd (create_ydd_xml demo_ydd_ext demo_ydd False) = Inr (DrawableDictionary
      [\<lparr>d_name = ''a.#dd'', d_hash = ''a'', d_skeleton = None\<rparr>,
       \<lparr>d_name = ''b.#dd'', d_hash = ''b'', d_skeleton = None\<rparr>,
       \<lparr>d_name = ''rig.#dd'', d_hash = ''rig'', d_skeleton = Some ''bones''\<rparr>]) \<and>
   sorted (map (\<lambda>d. name_to_hash demo_ydd_ext (takeWhile (\<lambda>c. c \<noteq> CHR ''.'') (d_name d)))
      [\<lparr>d_name = ''a.#dd'', d_hash = ''a'', d_skeleton = None\<rparr>,
       \<lparr>d_name = ''b.#dd'', d_hash = ''b'', d_skeleton = None\<rparr>,
       \<lparr>d_name = ''rig.#dd'', d_hash = ''rig'', d_skeleton = Some ''bones''\<rparr>]) \<and>
   snd (create_ydd_xml demo_ydd_ext demo_ydd_rdr True) = Inr (RDR2DrawableDictionary
      [\<lparr>d_name = ''x.#dd'', d_hash = ''x'', d_skeleton = None\<rparr>,
       \<lparr>d_name = ''hash_22.#dd'', d_hash = ''hash_22'', d_skeleton = None\<rparr>]) \<and>
   sorted (map (\<lambda>d. name_to_hash_literal demo_ydd_ext (d_hash d))
      [\<lparr>d_name = ''x.#dd'', d_hash = ''x'', d_skeleton = None\<rparr>,
       \<lparr>d_name = ''hash_22.#dd'', d_hash = ''hash_22'', d_skeleton = None\<rparr>])"
proof -
  have gta: "sollum_game_type demo_ydd = GTA" by (simp add: demo_ydd_def demo_obj_def)
  have rdr: "sollum_game_type demo_ydd_rdr = RDR" by (simp add: demo_ydd_rdr_def demo_obj_def)
  show ?thesis
    using create_ydd_xml_sorted [OF demo_run] create_ydd_xml_sorted [OF demo_run_rdr] gta rdr
      demo_run demo_run_rdr
    by simp
qed

text \<open>
  C8, as the code has it: the encoder is called once for every child whose role is
  \<open>DRAWABLE\<close>, in the order of the children. Its armature argument is \<open>None\<close> when the
  child is itself an armature object, and otherwise the reference armature found at
  entry: the container if it is an armature, else the first armature child (\<open>None\<close>
  when there is none). When the encoder raises, the calls made are a prefix of these.
\<close>

theorem create_ydd_xml_armature_argument:
  "prefix (fst (create_ydd_xml ext ydd_obj exclude_skeleton))
     (map (\<lambda>child. (child,
              if obj_type child = ''ARMATURE'' then None
              else if obj_type ydd_obj = ''ARMATURE'' then Some ydd_obj
              else List.find (\<lambda>c. obj_type c = ''ARMATURE'') (children ydd_obj)))
        (filter (\<lambda>c. sollum_type c = DRAWABLE) (children ydd_obj))) \<and>
   (\<forall>r. snd (create_ydd_xml ext ydd_obj exclude_skeleton) = Inr r \<longrightarrow>
      fst (create_ydd_xml ext ydd_obj exclude_skeleton) =
        map (\<lambda>child. (child,
              if obj_type child = ''ARMATURE'' then None
              else if obj_type ydd_obj = ''ARMATURE'' then Some ydd_obj
              else List.find (\<lambda>c. obj_type c = ''ARMATURE'') (children ydd_obj)))
          (filter (\<lambda>c. sollum_type c = DRAWABLE) (children ydd_obj)))"
proof -
  let ?arm = "if obj_type ydd_obj \<noteq> ''ARMATURE'' then find_ydd_armature ydd_obj else Some ydd_obj"
  let ?init = "\<lparr>appended = [], calls = []\<rparr>"
  let ?run = "ydd_loop ext exclude_skeleton ?arm (children ydd_obj) ?init"
  let ?f = "\<lambda>child. (child,
              if obj_type child = ''ARMATURE'' then None
              else if obj_type ydd_obj = ''ARMATURE'' then Some ydd_obj
              else List.find (\<lambda>c. obj_type c = ''ARMATURE'') (children ydd_obj))"
  let ?g = "\<lambda>child. (child, if obj_type child = ''ARMATURE'' then None else ?arm)"
  have fg: "?g = ?f"
    by (rule ext) (simp add: find_ydd_armature_def find_ydd_armature_in_find)
  obtain st err where run: "?run = (st, err)" by (cases ?run)
  have tr: "fst (create_ydd_xml ext ydd_obj exclude_skeleton) = calls st"
    using run by (simp add: create_ydd_xml_def Let_def split: option.splits)
  from ydd_loop_calls_prefix [of ext exclude_skeleton ?arm "children ydd_obj" ?init] run
  have "prefix (calls st) (map ?g (filter (\<lambda>c. sollum_type c = DRAWABLE) (children ydd_obj)))"
    by auto
  then have p: "prefix (calls st) (map ?f (filter (\<lambda>c. sollum_type c = DRAWABLE) (children ydd_obj)))"
    by (simp only: fg)
  have e: "calls st = map ?f (filter (\<lambda>c. sollum_type c = DRAWABLE) (children ydd_obj))"
    if "snd (create_ydd_xml ext ydd_obj exclude_skeleton) = Inr r" for r
  proof -
    from that run have "err = None"
      by (auto simp: create_ydd_xml_def Let_def split: option.splits)
    with run ydd_loop_calls_ok [of ext exclude_skeleton ?arm "children ydd_obj" ?init st]
    have "calls st = map ?g (filter (\<lambda>c. sollum_type c = DRAWABLE) (children ydd_obj))"
      by simp
    then show ?thesis by (simp only: fg)
  qed
  show ?thesis using p e by (simp only: tr) blast
qed

theorem create_ydd_xml_armature_argument_witness:
  "snd (create_ydd_xml demo_ydd_ext demo_ydd False) = Inr (DrawableDictionary
      [\<lparr>d_name = ''a.#dd'', d_hash = ''a'', d_skeleton = None\<rparr>,
       \<lparr>d_name = ''b.#dd'', d_hash = ''b'', d_skeleton = None\<rparr>,
       \<lparr>d_name = ''rig.#dd'', d_hash = ''rig'', d_skeleton = Some ''bones''\<rparr>]) \<and>
   fst (create_ydd_xml demo_ydd_ext demo_ydd False) =
     [(demo_obj ''b'' DRAWABLE ''MESH'' GTA [], Some (demo_obj ''rig'' DRAWABLE ''ARMATURE'' GTA [])),
      (demo_obj ''rig'' DRAWABLE ''ARMATURE'' GTA [], None),
      (demo_obj ''a'' DRAWABLE ''MESH'' GTA [], Some (demo_obj ''rig'' DRAWABLE ''ARMATURE'' GTA []))]"
proof -
  have "fst (create_ydd_xml demo_ydd_ext demo_ydd False) =
        map (\<lambda>child. (child,
              if obj_type child = ''ARMATURE'' then None
              else if obj_type demo_ydd = ''ARMATURE'' then Some demo_ydd
              else List.find (\<lambda>c. obj_type c = ''ARMATURE'') (children demo_ydd)))
          (filter (\<lambda>c. sollum_type c = DRAWABLE) (children demo_ydd))"
    using create_ydd_xml_armature_argument [of demo_ydd_ext demo_ydd False] demo_run by blast
  then show ?thesis using demo_run by (simp add: demo_ydd_def demo_obj_def)
qed

text \<open>
  C8, as stated, fails: for a drawable child that is itself an armature the argument
  passed to the encoder is \<open>None\<close>, not the child.
\<close>

theorem create_ydd_xml_armature_argument_counterexample:
  "sollum_type (demo_obj ''rig'' DRAWABLE ''ARMATURE'' GTA []) = DRAWABLE \<and>
   obj_type (demo_obj ''rig'' DRAWABLE ''ARMATURE'' GTA []) = ''ARMATURE'' \<and>
   fst (create_ydd_xml demo_ydd_ext demo_ydd False) ! 1 =
     (demo_obj ''rig'' DRAWABLE ''ARMATURE'' GTA [], None) \<and>
   snd (fst (create_ydd_xml demo_ydd_ext demo_ydd False) ! 1) \<noteq>
     Some (demo_obj ''rig'' DRAWABLE ''ARMATURE'' GTA [])"
  by (simp add: create_ydd_xml_def demo_ydd_def demo_obj_def demo_ydd_ext_def find_ydd_armature_def
      Let_def)

section \<open>Properties of the map-data exporter\<close>

subsection \<open>The loops in closed form\<close>

lemma entities_loop_eq:
  "entities_loop ext cs st =
     (map (\<lambda>g. fst (entity_from_obj ext g)) cs,
      st\<lparr>st_ymap := (st_ymap st)\<lparr>m_entities :=
            m_entities (st_ymap st) @ map (\<lambda>g. snd (entity_from_obj ext g)) cs\<rparr>\<rparr>)"
  by (induction cs arbitrary: st) (simp_all add: case_prod_unfold Let_def)

lemma box_loop_eq:
  "box_loop ext cs st =
     st\<lparr>st_ymap := (st_ymap st)\<lparr>m_box_occluders := m_box_occluders (st_ymap st) @
            map (box_from_obj ext) (filter (\<lambda>b. \<not> tilted b \<and> sollum_type b = YMAP_BOX_OCCLUDER) cs)\<rparr>,
        st_log := st_log st @ concat (map (box_diag ext) cs)\<rparr>"
  by (induction cs arbitrary: st) (simp_all add: Let_def logger_def tilted_def box_diag_def)

lemma cargen_loop_eq:
  "cargen_loop ext cs st =
     st\<lparr>st_ymap := (st_ymap st)\<lparr>m_car_generators := m_car_generators (st_ymap st) @
            map cargen_from_obj (filter (\<lambda>b. \<not> tilted b \<and> sollum_type b = YMAP_CAR_GENERATOR) cs)\<rparr>,
        st_log := st_log st @ concat (map (cargen_diag ext) cs)\<rparr>"
  by (induction cs arbitrary: st) (simp_all add: Let_def logger_def tilted_def cargen_diag_def)

lemma obj_set_simps [simp]:
  "name (set_name n obj) = n"
  "sollum_type (set_name n obj) = sollum_type obj"
  "obj_type (set_name n obj) = obj_type obj"
  "sollum_game_type (set_name n obj) = sollum_game_type obj"
  "children (set_name n obj) = children obj"
  "location (set_name n obj) = location obj"
  "rotation_euler (set_name n obj) = rotation_euler obj"
  "scale (set_name n obj) = scale obj"
  "dimensions (set_name n obj) = dimensions obj"
  "matrix_world (set_name n obj) = matrix_world obj"
  "data (set_name n obj) = data obj"
  "entity_properties (set_name n obj) = entity_properties obj"
  "ymap_cargen_properties (set_name n obj) = ymap_cargen_properties obj"
  "ymap_model_occl_properties (set_name n obj) = ymap_model_occl_properties obj"
  "ymap_properties (set_name n obj) = ymap_properties obj"
  "name (set_children cs obj) = name obj"
  "sollum_type (set_children cs obj) = sollum_type obj"
  "obj_type (set_children cs obj) = obj_type obj"
  "sollum_game_type (set_children cs obj) = sollum_game_type obj"
  "children (set_children cs obj) = cs"
  "location (set_children cs obj) = location obj"
  "rotation_euler (set_children cs obj) = rotation_euler obj"
  "scale (set_children cs obj) = scale obj"
  "dimensions (set_children cs obj) = dimensions obj"
  "matrix_world (set_children cs obj) = matrix_world obj"
  "data (set_children cs obj) = data obj"
  "entity_properties (set_children cs obj) = entity_properties obj"
  "ymap_cargen_properties (set_children cs obj) = ymap_cargen_properties obj"
  "ymap_model_occl_properties (set_children cs obj) = ymap_model_occl_properties obj"
  "ymap_properties (set_children cs obj) = ymap_properties obj"
  "name (set_data d obj) = name obj"
  "sollum_type (set_data d obj) = sollum_type obj"
  "obj_type (set_data d obj) = obj_type obj"
  "sollum_game_type (set_data d obj) = sollum_game_type obj"
  "children (set_data d obj) = children obj"
  "location (set_data d obj) = location obj"
  "rotation_euler (set_data d obj) = rotation_euler obj"
  "scale (set_data d obj) = scale obj"
  "dimensions (set_data d obj) = dimensions obj"
  "matrix_world (set_data d obj) = matrix_world obj"
  "data (set_data d obj) = d"
  "entity_properties (set_data d obj) = entity_properties obj"
  "ymap_cargen_properties (set_data d obj) = ymap_cargen_properties obj"
  "ymap_model_occl_properties (set_data d obj) = ymap_model_occl_properties obj"
  "ymap_properties (set_data d obj) = ymap_properties obj"
  "name (set_ymap_properties yp obj) = name obj"
  "sollum_type (set_ymap_properties yp obj) = sollum_type obj"
  "obj_type (set_ymap_properties yp obj) = obj_type obj"
  "sollum_game_type (set_ymap_properties yp obj) = sollum_game_type obj"
  "children (set_ymap_properties yp obj) = children obj"
  "location (set_ymap_properties yp obj) = location obj"
  "rotation_euler (set_ymap_properties yp obj) = rotation_euler obj"
  "scale (set_ymap_properties yp obj) = scale obj"
  "dimensions (set_ymap_properties yp obj) = dimensions obj"
  "matrix_world (set_ymap_properties yp obj) = matrix_world obj"
  "data (set_ymap_properties yp obj) = data obj"
  "entity_properties (set_ymap_properties yp obj) = entity_properties obj"
  "ymap_cargen_properties (set_ymap_properties yp obj) = ymap_cargen_properties obj"
  "ymap_model_occl_properties (set_ymap_properties yp obj) = ymap_model_occl_properties obj"
  "ymap_properties (set_ymap_properties yp obj) = yp"
  by (cases obj; simp)+

lemma obj_set_same [simp]:
  "set_name (name obj) obj = obj"
  "set_children (children obj) obj = obj"
  "set_data (data obj) obj = obj"
  "set_ymap_properties (ymap_properties obj) obj = obj"
  by (cases obj; simp)+

lemma length_vector_bytes [simp]: "length (vector_bytes ext v) = 12"
  by (simp add: vector_bytes_def word_bytes_def)

lemma length_concat_const:
  "(\<And>x. length (f x) = k) \<Longrightarrow> length (concat (map f xs)) = k * length xs"
  by (induction xs) simp_all

lemma length_data_buffer:
  "length (occlusion_model_obj_get_data_buffer ext obj mesh) =
     12 * length (vertices mesh) + length (concat (polygons mesh))"
  by (simp add: occlusion_model_obj_get_data_buffer_def Let_def length_concat_const [where k = 12])

lemma model_from_obj_eq:
  "model_from_obj ext obj st =
     (case data obj of
        None \<Rightarrow> (obj, st\<lparr>st_active := Some (name obj)\<rparr>, Inl TypeError)
      | Some m \<Rightarrow>
          (set_data (Some (quads_convert_to_tris ext m)) obj, st\<lparr>st_active := Some (name obj)\<rparr>,
           if length (concat (polygons (quads_convert_to_tris ext m))) =
                3 * length (polygons (quads_convert_to_tris ext m))
           then Inr (occlude_model_of ext (set_data (Some (quads_convert_to_tris ext m)) obj)
                       (quads_convert_to_tris ext m))
           else Inl AssertionError))"
proof (cases "data obj")
  case None
  then show ?thesis by (simp add: model_from_obj_def triangulate_obj_def Let_def)
next
  case (Some m)
  let ?m = "quads_convert_to_tris ext m"
  have iff: "int (12 * length (vertices ?m) + length (concat (polygons ?m))) =
               int (length (vertices ?m)) * 12 + int (length (polygons ?m)) * 3 \<longleftrightarrow>
             length (concat (polygons ?m)) = 3 * length (polygons ?m)"
    by linarith
  show ?thesis
    using Some iff
    by (simp add: model_from_obj_def triangulate_obj_def Let_def case_prod_unfold
        occlude_model_of_def length_data_buffer del: of_nat_add of_nat_mult)
qed

lemma model_loop_frame:
  "model_loop ext cs st = (objs, st', err) \<Longrightarrow>
     st_props st' = st_props st \<and>
     st_ymap st' = (st_ymap st)\<lparr>m_occlude_models := m_occlude_models (st_ymap st')\<rparr> \<and>
     prefix (m_occlude_models (st_ymap st)) (m_occlude_models (st_ymap st')) \<and>
     prefix (st_log st) (st_log st') \<and>
     list_all2 (\<lambda>g g'. g' = g \<or> (model_admitted g \<and> g' = triangulated ext g)) cs objs"
proof (induction cs arbitrary: st objs st' err)
  case Nil
  then show ?case by auto
next
  case (Cons g rest)
  show ?case
  proof (cases "sollum_type g = YMAP_MODEL_OCCLUDER")
    case False
    let ?st1 = "logger WARNING (''Object '' @ name g @ '' will be skipped because it is not a ''
                     @ SOLLUMZ_UI_NAMES ext YMAP_MODEL_OCCLUDER @ '' type.'') st"
    obtain r1 s1 e1 where run: "model_loop ext rest ?st1 = (r1, s1, e1)"
      by (cases "model_loop ext rest ?st1") auto
    from Cons.prems False run have eq: "objs = g # r1" "st' = s1" "err = e1"
      by (simp_all add: Let_def)
    from Cons.IH [OF run] show ?thesis
      unfolding eq by (auto simp: logger_def dest: append_prefixD)
  next
    case True
    show ?thesis
    proof (cases "data g")
      case None
      with Cons.prems True show ?thesis by (auto simp: list_all2_same)
    next
      case (Some m)
      show ?thesis
      proof (cases "length (vertices m) > 256")
        case big: True
        let ?st1 = "logger WARNING (''Object '' @ name g
            @ '' has too many vertices and will be skipped. It can not have more than 256 vertices.'') st"
        obtain r1 s1 e1 where run: "model_loop ext rest ?st1 = (r1, s1, e1)"
          by (cases "model_loop ext rest ?st1") auto
        from Cons.prems True Some big run have eq: "objs = g # r1" "st' = s1" "err = e1"
          by (simp_all add: Let_def)
        from Cons.IH [OF run] show ?thesis
          unfolding eq by (auto simp: logger_def dest: append_prefixD)
      next
        case small: False
        let ?m = "quads_convert_to_tris ext m"
        let ?g1 = "set_data (Some ?m) g"
        let ?sa = "st\<lparr>st_active := Some (name g)\<rparr>"
        have adm: "model_admitted g" using True Some small by (simp add: model_admitted_def)
        have tri: "triangulated ext g = ?g1" using Some by (simp add: triangulated_def)
        show ?thesis
        proof (cases "length (concat (polygons ?m)) = 3 * length (polygons ?m)")
          case bad: False
          from Cons.prems True Some small bad
          have eq: "objs = ?g1 # rest" "st' = ?sa" "err = Some AssertionError"
            by (simp_all add: model_from_obj_eq)
          show ?thesis unfolding eq using adm tri by (auto simp: list_all2_same)
        next
          case ok: True
          let ?rec = "occlude_model_of ext ?g1 ?m"
          let ?st1 = "?sa\<lparr>st_ymap := (st_ymap ?sa)\<lparr>m_occlude_models :=
                         m_occlude_models (st_ymap ?sa) @ [?rec]\<rparr>\<rparr>"
          obtain r1 s1 e1 where run: "model_loop ext rest ?st1 = (r1, s1, e1)"
            by (cases "model_loop ext rest ?st1") auto
          from Cons.prems True Some small ok run
          have eq: "objs = ?g1 # r1" "st' = s1" "err = e1"
            by (simp_all add: model_from_obj_eq Let_def)
          from Cons.IH [OF run] show ?thesis
            unfolding eq using adm tri by (auto dest: append_prefixD)
        qed
      qed
    qed
  qed
qed

lemma model_loop_ok:
  "model_loop ext cs st = (objs, st', None) \<Longrightarrow>
     objs = map (\<lambda>g. if model_admitted g then triangulated ext g else g) cs \<and>
     m_occlude_models (st_ymap st') = m_occlude_models (st_ymap st) @
       map (\<lambda>g. occlude_model_of ext (triangulated ext g) (the (data (triangulated ext g))))
         (filter model_admitted cs) \<and>
     st_log st' = st_log st @ concat (map (model_diag ext) cs)"
proof (induction cs arbitrary: st objs st')
  case Nil
  then show ?case by auto
next
  case (Cons g rest)
  show ?case
  proof (cases "sollum_type g = YMAP_MODEL_OCCLUDER")
    case False
    let ?st1 = "logger WARNING (''Object '' @ name g @ '' will be skipped because it is not a ''
                     @ SOLLUMZ_UI_NAMES ext YMAP_MODEL_OCCLUDER @ '' type.'') st"
    obtain r1 s1 e1 where run: "model_loop ext rest ?st1 = (r1, s1, e1)"
      by (cases "model_loop ext rest ?st1") auto
    from Cons.prems False run have eq: "objs = g # r1" "st' = s1" "e1 = None"
      by (simp_all add: Let_def)
    have nadm: "\<not> model_admitted g" using False by (simp add: model_admitted_def)
    from Cons.IH [OF run [unfolded eq(3)]] show ?thesis
      unfolding eq using nadm False by (simp add: logger_def model_diag_def)
  next
    case True
    show ?thesis
    proof (cases "data g")
      case None
      with Cons.prems True show ?thesis by simp
    next
      case (Some m)
      show ?thesis
      proof (cases "length (vertices m) > 256")
        case big: True
        let ?st1 = "logger WARNING (''Object '' @ name g
            @ '' has too many vertices and will be skipped. It can not have more than 256 vertices.'') st"
        obtain r1 s1 e1 where run: "model_loop ext rest ?st1 = (r1, s1, e1)"
          by (cases "model_loop ext rest ?st1") auto
        from Cons.prems True Some big run have eq: "objs = g # r1" "st' = s1" "e1 = None"
          by (simp_all add: Let_def)
        have nadm: "\<not> model_admitted g" using Some big by (simp add: model_admitted_def)
        from Cons.IH [OF run [unfolded eq(3)]] show ?thesis
          unfolding eq using nadm True Some big by (simp add: logger_def model_diag_def)
      next
        case small: False
        let ?m = "quads_convert_to_tris ext m"
        let ?g1 = "set_data (Some ?m) g"
        let ?sa = "st\<lparr>st_active := Some (name g)\<rparr>"
        have adm: "model_admitted g" using True Some small by (simp add: model_admitted_def)
        have tri: "triangulated ext g = ?g1" using Some by (simp add: triangulated_def)
        show ?thesis
        proof (cases "length (concat (polygons ?m)) = 3 * length (polygons ?m)")
          case bad: False
          from Cons.prems True Some small bad show ?thesis
            by (simp add: model_from_obj_eq)
        next
          case ok: True
          let ?rec = "occlude_model_of ext ?g1 ?m"
          let ?st1 = "?sa\<lparr>st_ymap := (st_ymap ?sa)\<lparr>m_occlude_models :=
                         m_occlude_models (st_ymap ?sa) @ [?rec]\<rparr>\<rparr>"
          obtain r1 s1 e1 where run: "model_loop ext rest ?st1 = (r1, s1, e1)"
            by (cases "model_loop ext rest ?st1") auto
          from Cons.prems True Some small ok run
          have eq: "objs = ?g1 # r1" "st' = s1" "e1 = None"
            by (simp_all add: model_from_obj_eq Let_def)
          from Cons.IH [OF run [unfolded eq(3)]] show ?thesis
            unfolding eq using adm tri True Some small by (simp add: model_diag_def)
        qed
      qed
    qed
  qed
qed


lemma process_child_cases:
  "process_child ext s c st =
     (if ymap_exclude_entities s = False \<and> sollum_type c = YMAP_ENTITY_GROUP
      then (set_children (map (\<lambda>g. fst (entity_from_obj ext g)) (children c)) c,
            st\<lparr>st_ymap := (st_ymap st)\<lparr>m_entities :=
                 m_entities (st_ymap st) @ map (\<lambda>g. snd (entity_from_obj ext g)) (children c)\<rparr>\<rparr>,
            None)
      else if ymap_box_occluders s = False \<and> sollum_type c = YMAP_BOX_OCCLUDER_GROUP
      then (c, box_loop ext (children c) (set_has_occl st), None)
      else if ymap_model_occluders s = False \<and> sollum_type c = YMAP_MODEL_OCCLUDER_GROUP
      then (case model_loop ext (children c) (set_has_occl st) of
              (cs, s', e) \<Rightarrow> (set_children cs c, s', e))
      else if ymap_car_generators s = False \<and> sollum_type c = YMAP_CAR_GENERATOR_GROUP
      then (c, cargen_loop ext (children c) st, None)
      else (c, st, None))"
  by (auto simp: process_child_def entities_loop_eq Let_def split: prod.splits option.splits)


lemma unat_of_nat_small: "\<forall>i\<in>set xs. i \<le> 255 \<Longrightarrow> map unat (map (\<lambda>i. (of_nat i :: 8 word)) xs) = xs"
  by (induction xs) (simp_all add: unat_of_nat)

lemma drop_data_buffer:
  "drop (12 * length (vertices mesh)) (occlusion_model_obj_get_data_buffer ext obj mesh) =
     map (\<lambda>i. (of_nat i :: 8 word)) (concat (polygons mesh))"
  by (simp add: occlusion_model_obj_get_data_buffer_def Let_def length_concat_const [where k = 12])

subsection \<open>The loop over the children of the container\<close>

lemma set_children_twice [simp]: "set_children cs (set_children cs' c) = set_children cs c"
  by (cases c) simp

lemma fst_entity_from_obj:
  "fst (entity_from_obj ext g) =
     set_name (assign_name ext g (re_sub_not_found (str_lower ext (name g)))) g"
  by (simp add: entity_from_obj_def Let_def)

lemma process_child_ok:
  assumes "process_child ext s c st = (c', st', None)"
  shows "c' = child_after ext s c"
    and "m_entities (st_ymap st') = m_entities (st_ymap st) @ child_entities ext s c"
    and "m_box_occluders (st_ymap st') = m_box_occluders (st_ymap st) @ child_boxes ext s c"
    and "m_occlude_models (st_ymap st') = m_occlude_models (st_ymap st) @ child_models ext s c"
    and "m_car_generators (st_ymap st') = m_car_generators (st_ymap st) @ child_cargens s c"
    and "st_log st' = st_log st @ child_diags ext s c"
proof -
  consider (e) "entity_group_on s c" | (b) "box_group_on s c" | (m) "model_group_on s c"
    | (g) "cargen_group_on s c"
    | (n) "\<not> entity_group_on s c" "\<not> box_group_on s c" "\<not> model_group_on s c" "\<not> cargen_group_on s c"
    by blast
  then have "c' = child_after ext s c \<and>
     m_entities (st_ymap st') = m_entities (st_ymap st) @ child_entities ext s c \<and>
     m_box_occluders (st_ymap st') = m_box_occluders (st_ymap st) @ child_boxes ext s c \<and>
     m_occlude_models (st_ymap st') = m_occlude_models (st_ymap st) @ child_models ext s c \<and>
     m_car_generators (st_ymap st') = m_car_generators (st_ymap st) @ child_cargens s c \<and>
     st_log st' = st_log st @ child_diags ext s c"
  proof cases
    case e
    then show ?thesis using assms
      by (auto simp: process_child_cases entity_group_on_def box_group_on_def model_group_on_def
          cargen_group_on_def child_after_def child_entities_def child_boxes_def child_models_def
          child_cargens_def child_diags_def)
  next
    case b
    then show ?thesis using assms
      by (auto simp: process_child_cases entity_group_on_def box_group_on_def model_group_on_def
          cargen_group_on_def child_after_def child_entities_def child_boxes_def child_models_def
          child_cargens_def child_diags_def box_loop_eq set_has_occl_def)
  next
    case m
    then have t: "sollum_type c = YMAP_MODEL_OCCLUDER_GROUP" "ymap_model_occluders s = False"
      by (simp_all add: model_group_on_def)
    obtain cs s1 e1 where run: "model_loop ext (children c) (set_has_occl st) = (cs, s1, e1)"
      by (cases "model_loop ext (children c) (set_has_occl st)") auto
    from assms t run have eq: "c' = set_children cs c" "st' = s1" "e1 = None"
      by (simp_all add: process_child_cases)
    from model_loop_ok [OF run [unfolded eq(3)]] model_loop_frame [OF run]
    show ?thesis using m t unfolding eq
      by (simp add: entity_group_on_def box_group_on_def model_group_on_def
          cargen_group_on_def child_after_def child_entities_def child_boxes_def child_models_def
          child_cargens_def child_diags_def set_has_occl_def)
  next
    case g
    then show ?thesis using assms
      by (auto simp: process_child_cases entity_group_on_def box_group_on_def model_group_on_def
          cargen_group_on_def child_after_def child_entities_def child_boxes_def child_models_def
          child_cargens_def child_diags_def cargen_loop_eq)
  next
    case n
    then have "process_child ext s c st = (c, st, None)"
      by (auto simp: process_child_cases entity_group_on_def box_group_on_def model_group_on_def
          cargen_group_on_def)
    with assms n show ?thesis
      by (simp add: child_after_def child_entities_def child_boxes_def child_models_def
          child_cargens_def child_diags_def)
  qed
  then show "c' = child_after ext s c"
    and "m_entities (st_ymap st') = m_entities (st_ymap st) @ child_entities ext s c"
    and "m_box_occluders (st_ymap st') = m_box_occluders (st_ymap st) @ child_boxes ext s c"
    and "m_occlude_models (st_ymap st') = m_occlude_models (st_ymap st) @ child_models ext s c"
    and "m_car_generators (st_ymap st') = m_car_generators (st_ymap st) @ child_cargens s c"
    and "st_log st' = st_log st @ child_diags ext s c"
    by simp_all
qed


lemma model_loop_active:
  "model_loop ext cs st = (objs, st', err) \<Longrightarrow>
     st_active st' = st_active st \<or>
     (\<exists>g\<in>set cs. model_admitted g \<and> st_active st' = Some (name g))"
proof (induction cs arbitrary: st objs st' err)
  case Nil
  then show ?case by auto
next
  case (Cons g rest)
  show ?case
  proof (cases "sollum_type g = YMAP_MODEL_OCCLUDER")
    case False
    let ?st1 = "logger WARNING (''Object '' @ name g @ '' will be skipped because it is not a ''
                     @ SOLLUMZ_UI_NAMES ext YMAP_MODEL_OCCLUDER @ '' type.'') st"
    obtain r1 s1 e1 where run: "model_loop ext rest ?st1 = (r1, s1, e1)"
      by (cases "model_loop ext rest ?st1") auto
    from Cons.prems False run have eq: "st' = s1"
      by (simp add: Let_def)
    from Cons.IH [OF run] show ?thesis
      unfolding eq by (auto simp: logger_def)
  next
    case True
    show ?thesis
    proof (cases "data g")
      case None
      with Cons.prems True show ?thesis by auto
    next
      case (Some m)
      show ?thesis
      proof (cases "length (vertices m) > 256")
        case big: True
        let ?st1 = "logger WARNING (''Object '' @ name g
            @ '' has too many vertices and will be skipped. It can not have more than 256 vertices.'') st"
        obtain r1 s1 e1 where run: "model_loop ext rest ?st1 = (r1, s1, e1)"
          by (cases "model_loop ext rest ?st1") auto
        from Cons.prems True Some big run have eq: "st' = s1"
          by (simp add: Let_def)
        from Cons.IH [OF run] show ?thesis
          unfolding eq by (auto simp: logger_def)
      next
        case small: False
        let ?m = "quads_convert_to_tris ext m"
        let ?g1 = "set_data (Some ?m) g"
        let ?sa = "st\<lparr>st_active := Some (name g)\<rparr>"
        have adm: "model_admitted g" using True Some small by (simp add: model_admitted_def)
        show ?thesis
        proof (cases "length (concat (polygons ?m)) = 3 * length (polygons ?m)")
          case bad: False
          from Cons.prems True Some small bad
          have eq: "st' = ?sa"
            by (simp add: model_from_obj_eq)
          show ?thesis unfolding eq using adm by auto
        next
          case ok: True
          let ?rec = "occlude_model_of ext ?g1 ?m"
          let ?st1 = "?sa\<lparr>st_ymap := (st_ymap ?sa)\<lparr>m_occlude_models :=
                         m_occlude_models (st_ymap ?sa) @ [?rec]\<rparr>\<rparr>"
          obtain r1 s1 e1 where run: "model_loop ext rest ?st1 = (r1, s1, e1)"
            by (cases "model_loop ext rest ?st1") auto
          from Cons.prems True Some small ok run
          have eq: "st' = s1"
            by (simp add: model_from_obj_eq Let_def)
          from Cons.IH [OF run] show ?thesis
            unfolding eq using adm by auto
        qed
      qed
    qed
  qed
qed

lemma process_child_frame:
  assumes "process_child ext s c st = (c', st', err)"
  shows "st_props st' =
           (if box_group_on s c \<or> model_group_on s c then st_props (set_has_occl st) else st_props st)"
    and "st_ymap st' = (st_ymap st)\<lparr>m_entities := m_entities (st_ymap st'),
           m_box_occluders := m_box_occluders (st_ymap st'),
           m_occlude_models := m_occlude_models (st_ymap st'),
           m_car_generators := m_car_generators (st_ymap st')\<rparr>"
    and "child_rel ext s c c'"
    and "prefix (st_log st) (st_log st')"
    and "st_active st' = st_active st \<or>
         (model_group_on s c \<and> (\<exists>g\<in>set (children c). model_admitted g \<and> st_active st' = Some (name g)))"
proof -
  consider (e) "entity_group_on s c" | (b) "box_group_on s c" | (m) "model_group_on s c"
    | (g) "cargen_group_on s c"
    | (n) "\<not> entity_group_on s c" "\<not> box_group_on s c" "\<not> model_group_on s c" "\<not> cargen_group_on s c"
    by blast
  then have "st_props st' =
           (if box_group_on s c \<or> model_group_on s c then st_props (set_has_occl st) else st_props st) \<and>
     st_ymap st' = (st_ymap st)\<lparr>m_entities := m_entities (st_ymap st'),
           m_box_occluders := m_box_occluders (st_ymap st'),
           m_occlude_models := m_occlude_models (st_ymap st'),
           m_car_generators := m_car_generators (st_ymap st')\<rparr> \<and>
     child_rel ext s c c' \<and> prefix (st_log st) (st_log st') \<and>
     (st_active st' = st_active st \<or>
         (model_group_on s c \<and> (\<exists>g\<in>set (children c). model_admitted g \<and> st_active st' = Some (name g))))"
  proof cases
    case e
    then show ?thesis using assms
      by (auto simp: process_child_cases entity_group_on_def box_group_on_def model_group_on_def
          cargen_group_on_def child_rel_def grandchild_rel_def fst_entity_from_obj
          list_all2_map2 list_all2_same)
  next
    case b
    then show ?thesis using assms
      by (auto simp: process_child_cases entity_group_on_def box_group_on_def model_group_on_def
          cargen_group_on_def child_rel_def grandchild_rel_def box_loop_eq set_has_occl_def
          list_all2_same)
  next
    case m
    then have t: "sollum_type c = YMAP_MODEL_OCCLUDER_GROUP" "ymap_model_occluders s = False"
      by (simp_all add: model_group_on_def)
    obtain cs s1 e1 where run: "model_loop ext (children c) (set_has_occl st) = (cs, s1, e1)"
      by (cases "model_loop ext (children c) (set_has_occl st)") auto
    from assms t run have eq: "c' = set_children cs c" "st' = s1" "err = e1"
      by (simp_all add: process_child_cases)
    have rel: "list_all2 (grandchild_rel ext s c) (children c) cs"
      using model_loop_frame [OF run] m
      by (auto simp: grandchild_rel_def elim!: list_all2_mono)
    have ym: "st_ymap s1 = (st_ymap st)\<lparr>m_occlude_models := m_occlude_models (st_ymap s1)\<rparr>"
      using model_loop_frame [OF run] by (simp add: set_has_occl_def)
    have ym': "st_ymap s1 = (st_ymap st)\<lparr>m_entities := m_entities (st_ymap s1),
           m_box_occluders := m_box_occluders (st_ymap s1),
           m_occlude_models := m_occlude_models (st_ymap s1),
           m_car_generators := m_car_generators (st_ymap s1)\<rparr>"
      by (subst (1 2 3 4 5) ym) simp
    from model_loop_frame [OF run] model_loop_active [OF run] rel ym'
    show ?thesis using m unfolding eq
      by (auto simp: child_rel_def set_has_occl_def)
  next
    case g
    then show ?thesis using assms
      by (auto simp: process_child_cases entity_group_on_def box_group_on_def model_group_on_def
          cargen_group_on_def child_rel_def grandchild_rel_def cargen_loop_eq list_all2_same)
  next
    case n
    then have "process_child ext s c st = (c, st, None)"
      by (auto simp: process_child_cases entity_group_on_def box_group_on_def model_group_on_def
          cargen_group_on_def)
    with assms n show ?thesis
      by (simp add: child_rel_def grandchild_rel_def list_all2_same)
  qed
  then show "st_props st' =
           (if box_group_on s c \<or> model_group_on s c then st_props (set_has_occl st) else st_props st)"
    and "st_ymap st' = (st_ymap st)\<lparr>m_entities := m_entities (st_ymap st'),
           m_box_occluders := m_box_occluders (st_ymap st'),
           m_occlude_models := m_occlude_models (st_ymap st'),
           m_car_generators := m_car_generators (st_ymap st')\<rparr>"
    and "child_rel ext s c c'"
    and "prefix (st_log st) (st_log st')"
    and "st_active st' = st_active st \<or>
         (model_group_on s c \<and> (\<exists>g\<in>set (children c). model_admitted g \<and> st_active st' = Some (name g)))"
    by simp_all
qed


lemma set_has_occl_twice [simp]: "set_has_occl (set_has_occl st) = set_has_occl st"
  by (simp add: set_has_occl_def)

lemma st_props_set_has_occl_cong:
  "st_props a = st_props b \<Longrightarrow> st_props (set_has_occl a) = st_props (set_has_occl b)"
  by (simp add: set_has_occl_def)

lemma children_loop_ok:
  "children_loop ext s cs st = (cs', st', None) \<Longrightarrow>
     cs' = map (child_after ext s) cs \<and>
     m_entities (st_ymap st') = m_entities (st_ymap st) @ concat (map (child_entities ext s) cs) \<and>
     m_box_occluders (st_ymap st') = m_box_occluders (st_ymap st) @ concat (map (child_boxes ext s) cs) \<and>
     m_occlude_models (st_ymap st') = m_occlude_models (st_ymap st) @ concat (map (child_models ext s) cs) \<and>
     m_car_generators (st_ymap st') = m_car_generators (st_ymap st) @ concat (map (child_cargens s) cs) \<and>
     st_log st' = st_log st @ concat (map (child_diags ext s) cs) \<and>
     st_props st' = (if \<exists>c\<in>set cs. box_group_on s c \<or> model_group_on s c
                     then st_props (set_has_occl st) else st_props st)"
proof (induction cs arbitrary: st cs' st')
  case Nil
  then show ?case by simp
next
  case (Cons c rest)
  obtain c1 s1 e1 where pc: "process_child ext s c st = (c1, s1, e1)"
    by (cases "process_child ext s c st") auto
  obtain r2 s2 e2 where run: "children_loop ext s rest s1 = (r2, s2, e2)"
    by (cases "children_loop ext s rest s1") auto
  from Cons.prems pc have e1: "e1 = None"
    by (cases e1) simp_all
  from Cons.prems pc run e1 have eq: "cs' = c1 # r2" "st' = s2" "e2 = None"
    by simp_all
  note pok = process_child_ok [OF pc [unfolded e1]]
  note pfr = process_child_frame(1) [OF pc]
  note ih = Cons.IH [OF run [unfolded eq(3)]]
  have props: "st_props s2 = (if \<exists>c\<in>set (c # rest). box_group_on s c \<or> model_group_on s c
                     then st_props (set_has_occl st) else st_props st)"
  proof (cases "box_group_on s c \<or> model_group_on s c")
    case True
    then have p1: "st_props s1 = st_props (set_has_occl st)" using pfr by simp
    then have "st_props (set_has_occl s1) = st_props (set_has_occl st)"
      using st_props_set_has_occl_cong [OF p1] by simp
    with p1 ih True show ?thesis by auto
  next
    case False
    then have p1: "st_props s1 = st_props st" using pfr by simp
    from st_props_set_has_occl_cong [OF p1] p1 ih False show ?thesis by auto
  qed
  show ?case
    unfolding eq using pok ih props by simp
qed

lemma children_loop_frame:
  "children_loop ext s cs st = (cs', st', err) \<Longrightarrow>
     (st_props st' = st_props st \<or> st_props st' = st_props (set_has_occl st)) \<and>
     st_ymap st' = (st_ymap st)\<lparr>m_entities := m_entities (st_ymap st'),
           m_box_occluders := m_box_occluders (st_ymap st'),
           m_occlude_models := m_occlude_models (st_ymap st'),
           m_car_generators := m_car_generators (st_ymap st')\<rparr> \<and>
     list_all2 (child_rel ext s) cs cs' \<and>
     prefix (st_log st) (st_log st') \<and>
     (st_active st' = st_active st \<or>
      (\<exists>c\<in>set cs. model_group_on s c \<and>
         (\<exists>g\<in>set (children c). model_admitted g \<and> st_active st' = Some (name g))))"
proof (induction cs arbitrary: st cs' st' err)
  case Nil
  then show ?case by simp
next
  case (Cons c rest)
  obtain c1 s1 e1 where pc: "process_child ext s c st = (c1, s1, e1)"
    by (cases "process_child ext s c st") auto
  note pf = process_child_frame [OF pc]
  have refl: "list_all2 (child_rel ext s) rest rest"
    by (simp add: list_all2_same child_rel_def grandchild_rel_def)
  show ?case
  proof (cases e1)
    case (Some e)
    with Cons.prems pc have eq: "cs' = c1 # rest" "st' = s1"
      by simp_all
    show ?thesis unfolding eq using pf refl by auto
  next
    case None
    obtain r2 s2 e2 where run: "children_loop ext s rest s1 = (r2, s2, e2)"
      by (cases "children_loop ext s rest s1") auto
    from Cons.prems pc run None have eq: "cs' = c1 # r2" "st' = s2"
      by simp_all
    note ih = Cons.IH [OF run]
    have p1: "st_props s1 = st_props st \<or> st_props s1 = st_props (set_has_occl st)"
      using pf(1) by (simp split: if_splits)
    have props: "st_props s2 = st_props st \<or> st_props s2 = st_props (set_has_occl st)"
    proof -
      from ih have "st_props s2 = st_props s1 \<or> st_props s2 = st_props (set_has_occl s1)" by simp
      moreover have "st_props (set_has_occl s1) = st_props (set_has_occl st)"
        using p1 st_props_set_has_occl_cong [of s1 st]
          st_props_set_has_occl_cong [of s1 "set_has_occl st"] by auto
      ultimately show ?thesis using p1 by auto
    qed
    have ym: "st_ymap s2 = (st_ymap st)\<lparr>m_entities := m_entities (st_ymap s2),
           m_box_occluders := m_box_occluders (st_ymap s2),
           m_occlude_models := m_occlude_models (st_ymap s2),
           m_car_generators := m_car_generators (st_ymap s2)\<rparr>"
    proof -
      from ih have a: "st_ymap s2 = (st_ymap s1)\<lparr>m_entities := m_entities (st_ymap s2),
           m_box_occluders := m_box_occluders (st_ymap s2),
           m_occlude_models := m_occlude_models (st_ymap s2),
           m_car_generators := m_car_generators (st_ymap s2)\<rparr>" by simp
      show ?thesis
        by (subst a, subst pf(2)) simp
    qed
    have lg: "prefix (st_log st) (st_log s2)"
      using pf(4) ih by (auto elim: prefix_order.trans)
    have act: "st_active s2 = st_active st \<or>
      (\<exists>c\<in>set (c # rest). model_group_on s c \<and>
         (\<exists>g\<in>set (children c). model_admitted g \<and> st_active s2 = Some (name g)))"
      using pf(5) ih by auto
    show ?thesis unfolding eq using props ym lg act pf(3) ih by simp
  qed
qed

subsection \<open>The export as a whole\<close>

lemma set_twice [simp]:
  "set_ymap_properties p (set_ymap_properties q c) = set_ymap_properties p c"
  "set_name n (set_name n' c) = set_name n c"
  "set_data d (set_data d' c) = set_data d c"
  by (cases c; simp)+

lemma ymap_from_object_err:
  assumes "children_loop ext s (children obj) (init_state ext obj) = (cs', st, Some e)"
  shows "ymap_from_object ext s obj =
     \<lparr>scene = set_ymap_properties (st_props st) (set_children cs' obj),
      active_object = st_active st, diagnostics = st_log st, outcome = Inl e\<rparr>"
  using assms by (simp add: ymap_from_object_def init_state_def Let_def)

lemma ymap_from_object_ok:
  assumes "children_loop ext s (children obj) (init_state ext obj) = (cs', st, None)"
  shows "scene (ymap_from_object ext s obj) =
           set_ymap_properties
             ((st_props st)\<lparr>
                yp_entities_extents_min :=
                  fst (fst (generate_ymap_extents ext (set_ymap_properties (st_props st) (set_children cs' obj)))),
                yp_entities_extents_max :=
                  snd (fst (generate_ymap_extents ext (set_ymap_properties (st_props st) (set_children cs' obj)))),
                yp_streaming_extents_min :=
                  fst (snd (generate_ymap_extents ext (set_ymap_properties (st_props st) (set_children cs' obj)))),
                yp_streaming_extents_max :=
                  snd (snd (generate_ymap_extents ext (set_ymap_properties (st_props st) (set_children cs' obj))))\<rparr>)
             (set_children cs' obj)"
    and "active_object (ymap_from_object ext s obj) = st_active st"
    and "diagnostics (ymap_from_object ext s obj) = st_log st"
    and "outcome (ymap_from_object ext s obj) =
           Inr ((st_ymap st)\<lparr>
                m_name := remove_number_suffix ext (name obj),
                m_parent := yp_parent (st_props st),
                m_flags := yp_flags (st_props st),
                m_content_flags := yp_content_flags (st_props st),
                m_entities_extents_min :=
                  fst (fst (generate_ymap_extents ext (set_ymap_properties (st_props st) (set_children cs' obj)))),
                m_entities_extents_max :=
                  snd (fst (generate_ymap_extents ext (set_ymap_properties (st_props st) (set_children cs' obj)))),
                m_streaming_extents_min :=
                  fst (snd (generate_ymap_extents ext (set_ymap_properties (st_props st) (set_children cs' obj)))),
                m_streaming_extents_max :=
                  snd (snd (generate_ymap_extents ext (set_ymap_properties (st_props st) (set_children cs' obj)))),
                m_block := (m_block (st_ymap st))\<lparr>
                  b_version := bp_version (yp_block (st_props st)),
                  b_versiflagson := Some (bp_flags (yp_block (st_props st))),
                  b_name := bp_name (yp_block (st_props st)),
                  b_exported_by := bp_exported_by (yp_block (st_props st)),
                  b_owner := bp_owner (yp_block (st_props st)),
                  b_time := bp_time (yp_block (st_props st))\<rparr>\<rparr>)"
  using assms by (simp_all add: ymap_from_object_def init_state_def Let_def case_prod_unfold)

lemma ymap_from_object_outcome:
  "(\<exists>y. outcome (ymap_from_object ext s obj) = Inr y) \<longleftrightarrow>
   snd (snd (children_loop ext s (children obj) (init_state ext obj))) = None"
proof -
  obtain cs' st err where run: "children_loop ext s (children obj) (init_state ext obj) = (cs', st, err)"
    by (cases "children_loop ext s (children obj) (init_state ext obj)") auto
  show ?thesis
  proof (cases err)
    case None
    with run ymap_from_object_ok(4) [of ext s obj cs' st] show ?thesis by simp
  next
    case (Some e)
    with run ymap_from_object_err [of ext s obj cs' st e] show ?thesis by simp
  qed
qed

lemma init_frame:
  assumes "children_loop ext s (children obj) (init_state ext obj) = (cs', st, err)"
  shows "m_block (st_ymap st) = m_block (new_CMapData ext)"
    and "yp_block (st_props st) = yp_block (ymap_properties obj)"
    and "yp_parent (st_props st) = yp_parent (ymap_properties obj)"
    and "yp_flags (st_props st) = yp_flags (ymap_properties obj)"
    and "other_content_bits (yp_content_flags (st_props st)) =
           other_content_bits (yp_content_flags (ymap_properties obj))"
    and "has_occl (yp_content_flags (ymap_properties obj)) \<longrightarrow> has_occl (yp_content_flags (st_props st))"
    and "st_props st = (st_props st)\<lparr>yp_content_flags := yp_content_flags (st_props st)\<rparr>"
    and "st_props st = (ymap_properties obj)\<lparr>yp_content_flags :=
           (yp_content_flags (ymap_properties obj))\<lparr>has_occl := has_occl (yp_content_flags (st_props st))\<rparr>\<rparr>"
proof -
  note fr = children_loop_frame [OF assms]
  from fr have ym: "st_ymap st = (new_CMapData ext)\<lparr>m_entities := m_entities (st_ymap st),
           m_box_occluders := m_box_occluders (st_ymap st),
           m_occlude_models := m_occlude_models (st_ymap st),
           m_car_generators := m_car_generators (st_ymap st)\<rparr>"
    by (simp add: init_state_def)
  show "m_block (st_ymap st) = m_block (new_CMapData ext)"
    by (subst ym) simp
  from fr have pr: "st_props st = ymap_properties obj \<or>
      st_props st = (ymap_properties obj)\<lparr>yp_content_flags :=
           (yp_content_flags (ymap_properties obj))\<lparr>has_occl := True\<rparr>\<rparr>"
    by (simp add: init_state_def set_has_occl_def)
  then show "yp_block (st_props st) = yp_block (ymap_properties obj)"
    and "yp_parent (st_props st) = yp_parent (ymap_properties obj)"
    and "yp_flags (st_props st) = yp_flags (ymap_properties obj)"
    and "other_content_bits (yp_content_flags (st_props st)) =
           other_content_bits (yp_content_flags (ymap_properties obj))"
    and "has_occl (yp_content_flags (ymap_properties obj)) \<longrightarrow> has_occl (yp_content_flags (st_props st))"
    and "st_props st = (st_props st)\<lparr>yp_content_flags := yp_content_flags (st_props st)\<rparr>"
    and "st_props st = (ymap_properties obj)\<lparr>yp_content_flags :=
           (yp_content_flags (ymap_properties obj))\<lparr>has_occl := has_occl (yp_content_flags (st_props st))\<rparr>\<rparr>"
    by auto
qed

lemma demo_empty_run:
  "children_loop demo_ymap_ext demo_settings (children demo_map_empty_group)
     (init_state demo_ymap_ext demo_map_empty_group) =
   ([demo_obj ''Box Occluders'' YMAP_BOX_OCCLUDER_GROUP ''EMPTY'' GTA []],
    set_has_occl (init_state demo_ymap_ext demo_map_empty_group), None)"
  by (simp add: demo_map_empty_group_def demo_obj_def demo_settings_def process_child_cases
      set_has_occl_def init_state_def)

lemma concat_ne_Nil: "concat xss \<noteq> [] \<Longrightarrow> \<exists>xs\<in>set xss. xs \<noteq> []"
  by (induction xss) auto

lemma demo_map_run:
  "snd (snd (children_loop demo_ymap_ext demo_settings (children demo_map)
     (init_state demo_ymap_ext demo_map))) = None"
  by (simp add: demo_map_def demo_obj_def demo_settings_def process_child_cases box_loop_eq
      cargen_loop_eq model_from_obj_eq demo_quad_obj_def demo_mesh_obj_def demo_rotated_def
      demo_ymap_ext_def)

lemma set_children_props_commute [simp]:
  "set_children cs (set_ymap_properties p c) = set_ymap_properties p (set_children cs c)"
  by (cases c) simp

lemma demo_failing_run:
  "snd (snd (children_loop demo_ymap_ext demo_settings (children demo_map_failing)
     (init_state demo_ymap_ext demo_map_failing))) = Some AttributeError"
  by (simp add: demo_map_failing_def demo_obj_def demo_settings_def process_child_cases)

lemma demo_failing_outcome:
  "outcome (ymap_from_object demo_ymap_ext demo_settings demo_map_failing) = Inl AttributeError"
proof -
  obtain cs' st err where run:
    "children_loop demo_ymap_ext demo_settings (children demo_map_failing)
       (init_state demo_ymap_ext demo_map_failing) = (cs', st, err)"
    by (cases "children_loop demo_ymap_ext demo_settings (children demo_map_failing)
       (init_state demo_ymap_ext demo_map_failing)") auto
  with demo_failing_run have "err = Some AttributeError" by simp
  with run ymap_from_object_err [of demo_ymap_ext demo_settings demo_map_failing cs' st AttributeError]
  show ?thesis by simp
qed

lemma concat_map_if_filter:
  "concat (map (\<lambda>c. if P c then f c else []) cs) = concat (map f (filter P cs))"
  by (induction cs) simp_all

lemma concat_map_Nil: "concat (map (\<lambda>c. []) cs) = []"
  by (induction cs) simp_all

lemma demo_map_run_no_boxes:
  "snd (snd (children_loop demo_ymap_ext demo_settings_no_boxes (children demo_map)
     (init_state demo_ymap_ext demo_map))) = None"
  by (simp add: demo_map_def demo_obj_def demo_settings_no_boxes_def process_child_cases
      cargen_loop_eq model_from_obj_eq demo_quad_obj_def demo_mesh_obj_def demo_rotated_def
      demo_ymap_ext_def)

subsection \<open>The settings gate the categories\<close>

text \<open>
  C1: each of the four categories has a setting of its own, and the category is on
  when the setting is \<open>False\<close>, which is what the code tests. For a child that is a
  group of a category whose setting is \<open>True\<close>, the body of the loop does nothing: the
  child, the record under construction, the diagnostics and the properties of the
  container are as before, so none of the group's children is visited. For a group of
  a category whose setting is \<open>False\<close>, the body runs the loop of that category over
  all the children of the group. In the record of an export that returns one, each of
  the four sequences holds what the constructor gave it followed, when the category is
  on, by the records of the accepted children of every group of that category in order,
  and by nothing when it is off; and the diagnostics are those of the children of the
  groups of box occluders, model occluders and car generators that are on, and no others.
\<close>

theorem ymap_from_object_gating:
  "(ymap_exclude_entities s = True \<and> sollum_type c = YMAP_ENTITY_GROUP \<longrightarrow>
      process_child ext s c st = (c, st, None)) \<and>
   (ymap_box_occluders s = True \<and> sollum_type c = YMAP_BOX_OCCLUDER_GROUP \<longrightarrow>
      process_child ext s c st = (c, st, None)) \<and>
   (ymap_model_occluders s = True \<and> sollum_type c = YMAP_MODEL_OCCLUDER_GROUP \<longrightarrow>
      process_child ext s c st = (c, st, None)) \<and>
   (ymap_car_generators s = True \<and> sollum_type c = YMAP_CAR_GENERATOR_GROUP \<longrightarrow>
      process_child ext s c st = (c, st, None)) \<and>
   (ymap_exclude_entities s = False \<and> sollum_type c = YMAP_ENTITY_GROUP \<longrightarrow>
      process_child ext s c st =
        (case entities_loop ext (children c) st of (cs, st') \<Rightarrow> (set_children cs c, st', None))) \<and>
   (ymap_box_occluders s = False \<and> sollum_type c = YMAP_BOX_OCCLUDER_GROUP \<longrightarrow>
      process_child ext s c st = (c, box_loop ext (children c) (set_has_occl st), None)) \<and>
   (ymap_model_occluders s = False \<and> sollum_type c = YMAP_MODEL_OCCLUDER_GROUP \<longrightarrow>
      process_child ext s c st =
        (case model_loop ext (children c) (set_has_occl st) of
           (cs, st', e) \<Rightarrow> (set_children cs c, st', e))) \<and>
   (ymap_car_generators s = False \<and> sollum_type c = YMAP_CAR_GENERATOR_GROUP \<longrightarrow>
      process_child ext s c st = (c, cargen_loop ext (children c) st, None)) \<and>
   (\<forall>y. outcome (ymap_from_object ext s obj) = Inr y \<longrightarrow>
      m_entities y = m_entities (new_CMapData ext) @
        (if ymap_exclude_entities s = False
         then concat (map (\<lambda>c. map (\<lambda>g. snd (entity_from_obj ext g)) (children c))
                (filter (\<lambda>c. sollum_type c = YMAP_ENTITY_GROUP) (children obj)))
         else []) \<and>
      m_box_occluders y = m_box_occluders (new_CMapData ext) @
        (if ymap_box_occluders s = False
         then concat (map (\<lambda>c. map (box_from_obj ext)
                  (filter (\<lambda>b. \<not> tilted b \<and> sollum_type b = YMAP_BOX_OCCLUDER) (children c)))
                (filter (\<lambda>c. sollum_type c = YMAP_BOX_OCCLUDER_GROUP) (children obj)))
         else []) \<and>
      m_occlude_models y = m_occlude_models (new_CMapData ext) @
        (if ymap_model_occluders s = False
         then concat (map (\<lambda>c. map (\<lambda>g. occlude_model_of ext (triangulated ext g)
                                         (the (data (triangulated ext g))))
                  (filter model_admitted (children c)))
                (filter (\<lambda>c. sollum_type c = YMAP_MODEL_OCCLUDER_GROUP) (children obj)))
         else []) \<and>
      m_car_generators y = m_car_generators (new_CMapData ext) @
        (if ymap_car_generators s = False
         then concat (map (\<lambda>c. map cargen_from_obj
                  (filter (\<lambda>b. \<not> tilted b \<and> sollum_type b = YMAP_CAR_GENERATOR) (children c)))
                (filter (\<lambda>c. sollum_type c = YMAP_CAR_GENERATOR_GROUP) (children obj)))
         else []) \<and>
      diagnostics (ymap_from_object ext s obj) =
        concat (map (\<lambda>c.
          if ymap_box_occluders s = False \<and> sollum_type c = YMAP_BOX_OCCLUDER_GROUP
          then concat (map (box_diag ext) (children c))
          else if ymap_model_occluders s = False \<and> sollum_type c = YMAP_MODEL_OCCLUDER_GROUP
          then concat (map (model_diag ext) (children c))
          else if ymap_car_generators s = False \<and> sollum_type c = YMAP_CAR_GENERATOR_GROUP
          then concat (map (cargen_diag ext) (children c))
          else []) (children obj)))"
proof -
  have body: "(ymap_exclude_entities s = True \<and> sollum_type c = YMAP_ENTITY_GROUP \<longrightarrow>
      process_child ext s c st = (c, st, None)) \<and>
   (ymap_box_occluders s = True \<and> sollum_type c = YMAP_BOX_OCCLUDER_GROUP \<longrightarrow>
      process_child ext s c st = (c, st, None)) \<and>
   (ymap_model_occluders s = True \<and> sollum_type c = YMAP_MODEL_OCCLUDER_GROUP \<longrightarrow>
      process_child ext s c st = (c, st, None)) \<and>
   (ymap_car_generators s = True \<and> sollum_type c = YMAP_CAR_GENERATOR_GROUP \<longrightarrow>
      process_child ext s c st = (c, st, None)) \<and>
   (ymap_exclude_entities s = False \<and> sollum_type c = YMAP_ENTITY_GROUP \<longrightarrow>
      process_child ext s c st =
        (case entities_loop ext (children c) st of (cs, st') \<Rightarrow> (set_children cs c, st', None))) \<and>
   (ymap_box_occluders s = False \<and> sollum_type c = YMAP_BOX_OCCLUDER_GROUP \<longrightarrow>
      process_child ext s c st = (c, box_loop ext (children c) (set_has_occl st), None)) \<and>
   (ymap_model_occluders s = False \<and> sollum_type c = YMAP_MODEL_OCCLUDER_GROUP \<longrightarrow>
      process_child ext s c st =
        (case model_loop ext (children c) (set_has_occl st) of
           (cs, st', e) \<Rightarrow> (set_children cs c, st', e))) \<and>
   (ymap_car_generators s = False \<and> sollum_type c = YMAP_CAR_GENERATOR_GROUP \<longrightarrow>
      process_child ext s c st = (c, cargen_loop ext (children c) st, None))"
    by (auto simp: process_child_cases entities_loop_eq)
  have whole: "m_entities y = m_entities (new_CMapData ext) @
        (if ymap_exclude_entities s = False
         then concat (map (\<lambda>c. map (\<lambda>g. snd (entity_from_obj ext g)) (children c))
                (filter (\<lambda>c. sollum_type c = YMAP_ENTITY_GROUP) (children obj)))
         else []) \<and>
      m_box_occluders y = m_box_occluders (new_CMapData ext) @
        (if ymap_box_occluders s = False
         then concat (map (\<lambda>c. map (box_from_obj ext)
                  (filter (\<lambda>b. \<not> tilted b \<and> sollum_type b = YMAP_BOX_OCCLUDER) (children c)))
                (filter (\<lambda>c. sollum_type c = YMAP_BOX_OCCLUDER_GROUP) (children obj)))
         else []) \<and>
      m_occlude_models y = m_occlude_models (new_CMapData ext) @
        (if ymap_model_occluders s = False
         then concat (map (\<lambda>c. map (\<lambda>g. occlude_model_of ext (triangulated ext g)
                                         (the (data (triangulated ext g))))
                  (filter model_admitted (children c)))
                (filter (\<lambda>c. sollum_type c = YMAP_MODEL_OCCLUDER_GROUP) (children obj)))
         else []) \<and>
      m_car_generators y = m_car_generators (new_CMapData ext) @
        (if ymap_car_generators s = False
         then concat (map (\<lambda>c. map cargen_from_obj
                  (filter (\<lambda>b. \<not> tilted b \<and> sollum_type b = YMAP_CAR_GENERATOR) (children c)))
                (filter (\<lambda>c. sollum_type c = YMAP_CAR_GENERATOR_GROUP) (children obj)))
         else []) \<and>
      diagnostics (ymap_from_object ext s obj) =
        concat (map (\<lambda>c.
          if ymap_box_occluders s = False \<and> sollum_type c = YMAP_BOX_OCCLUDER_GROUP
          then concat (map (box_diag ext) (children c))
          else if ymap_model_occluders s = False \<and> sollum_type c = YMAP_MODEL_OCCLUDER_GROUP
          then concat (map (model_diag ext) (children c))
          else if ymap_car_generators s = False \<and> sollum_type c = YMAP_CAR_GENERATOR_GROUP
          then concat (map (cargen_diag ext) (children c))
          else []) (children obj))"
    if y: "outcome (ymap_from_object ext s obj) = Inr y" for y
  proof -
    obtain cs' st err where run: "children_loop ext s (children obj) (init_state ext obj) = (cs', st, err)"
      by (cases "children_loop ext s (children obj) (init_state ext obj)") auto
    have "err = None"
      using y ymap_from_object_outcome [of ext s obj] run by auto
    with run have ok: "children_loop ext s (children obj) (init_state ext obj) = (cs', st, None)"
      by simp
    note cl = children_loop_ok [OF ok]
    from ymap_from_object_ok(4) [OF ok] y
    have lists: "m_entities y = m_entities (st_ymap st)" "m_box_occluders y = m_box_occluders (st_ymap st)"
      "m_occlude_models y = m_occlude_models (st_ymap st)"
      "m_car_generators y = m_car_generators (st_ymap st)"
      by auto
    have dg: "diagnostics (ymap_from_object ext s obj) = st_log st"
      by (rule ymap_from_object_ok(3) [OF ok])
    have e: "concat (map (child_entities ext s) (children obj)) =
        (if ymap_exclude_entities s = False
         then concat (map (\<lambda>c. map (\<lambda>g. snd (entity_from_obj ext g)) (children c))
                (filter (\<lambda>c. sollum_type c = YMAP_ENTITY_GROUP) (children obj)))
         else [])"
      unfolding child_entities_def [abs_def] entity_group_on_def
      by (cases "ymap_exclude_entities s") (simp_all add: concat_map_if_filter concat_map_Nil)
    have b: "concat (map (child_boxes ext s) (children obj)) =
        (if ymap_box_occluders s = False
         then concat (map (\<lambda>c. map (box_from_obj ext)
                  (filter (\<lambda>b. \<not> tilted b \<and> sollum_type b = YMAP_BOX_OCCLUDER) (children c)))
                (filter (\<lambda>c. sollum_type c = YMAP_BOX_OCCLUDER_GROUP) (children obj)))
         else [])"
      unfolding child_boxes_def [abs_def] box_group_on_def
      by (cases "ymap_box_occluders s") (simp_all add: concat_map_if_filter concat_map_Nil)
    have m: "concat (map (child_models ext s) (children obj)) =
        (if ymap_model_occluders s = False
         then concat (map (\<lambda>c. map (\<lambda>g. occlude_model_of ext (triangulated ext g)
                                         (the (data (triangulated ext g))))
                  (filter model_admitted (children c)))
                (filter (\<lambda>c. sollum_type c = YMAP_MODEL_OCCLUDER_GROUP) (children obj)))
         else [])"
      unfolding child_models_def [abs_def] model_group_on_def
      by (cases "ymap_model_occluders s") (simp_all add: concat_map_if_filter concat_map_Nil)
    have g: "concat (map (child_cargens s) (children obj)) =
        (if ymap_car_generators s = False
         then concat (map (\<lambda>c. map cargen_from_obj
                  (filter (\<lambda>b. \<not> tilted b \<and> sollum_type b = YMAP_CAR_GENERATOR) (children c)))
                (filter (\<lambda>c. sollum_type c = YMAP_CAR_GENERATOR_GROUP) (children obj)))
         else [])"
      unfolding child_cargens_def [abs_def] cargen_group_on_def
      by (cases "ymap_car_generators s") (simp_all add: concat_map_if_filter concat_map_Nil)
    have d: "child_diags ext s = (\<lambda>c.
          if ymap_box_occluders s = False \<and> sollum_type c = YMAP_BOX_OCCLUDER_GROUP
          then concat (map (box_diag ext) (children c))
          else if ymap_model_occluders s = False \<and> sollum_type c = YMAP_MODEL_OCCLUDER_GROUP
          then concat (map (model_diag ext) (children c))
          else if ymap_car_generators s = False \<and> sollum_type c = YMAP_CAR_GENERATOR_GROUP
          then concat (map (cargen_diag ext) (children c))
          else [])"
      by (rule ext) (simp add: child_diags_def box_group_on_def model_group_on_def cargen_group_on_def)
    from cl have
      "m_entities (st_ymap st) = m_entities (new_CMapData ext) @ concat (map (child_entities ext s) (children obj))"
      "m_box_occluders (st_ymap st) = m_box_occluders (new_CMapData ext) @ concat (map (child_boxes ext s) (children obj))"
      "m_occlude_models (st_ymap st) = m_occlude_models (new_CMapData ext) @ concat (map (child_models ext s) (children obj))"
      "m_car_generators (st_ymap st) = m_car_generators (new_CMapData ext) @ concat (map (child_cargens s) (children obj))"
      "st_log st = concat (map (child_diags ext s) (children obj))"
      by (simp_all add: init_state_def)
    then show ?thesis
      unfolding lists dg e b m g d by simp
  qed
  show ?thesis using body whole by blast
qed

theorem ymap_from_object_gating_witness:
  "process_child demo_ymap_ext demo_settings_none (children demo_map ! 0) demo_state =
     (children demo_map ! 0, demo_state, None) \<and>
   process_child demo_ymap_ext demo_settings_none (children demo_map ! 1) demo_state =
     (children demo_map ! 1, demo_state, None) \<and>
   process_child demo_ymap_ext demo_settings_none (children demo_map ! 2) demo_state =
     (children demo_map ! 2, demo_state, None) \<and>
   process_child demo_ymap_ext demo_settings_none (children demo_map ! 3) demo_state =
     (children demo_map ! 3, demo_state, None) \<and>
   (\<exists>y. outcome (ymap_from_object demo_ymap_ext demo_settings demo_map) = Inr y \<and>
      length (m_entities y) = 1 \<and> length (m_box_occluders y) = 1 \<and>
      length (m_occlude_models y) = 1 \<and> length (m_car_generators y) = 1) \<and>
   length (diagnostics (ymap_from_object demo_ymap_ext demo_settings demo_map)) = 2 \<and>
   (\<exists>y. outcome (ymap_from_object demo_ymap_ext demo_settings_no_boxes demo_map) = Inr y \<and>
      length (m_entities y) = 1 \<and> m_box_occluders y = [] \<and>
      length (m_occlude_models y) = 1 \<and> length (m_car_generators y) = 1) \<and>
   diagnostics (ymap_from_object demo_ymap_ext demo_settings_no_boxes demo_map) = []"
proof -
  have kids: "sollum_type (children demo_map ! 0) = YMAP_ENTITY_GROUP"
    "sollum_type (children demo_map ! 1) = YMAP_BOX_OCCLUDER_GROUP"
    "sollum_type (children demo_map ! 2) = YMAP_MODEL_OCCLUDER_GROUP"
    "sollum_type (children demo_map ! 3) = YMAP_CAR_GENERATOR_GROUP"
    by (simp_all add: demo_map_def demo_obj_def)
  have off: "ymap_exclude_entities demo_settings_none = True" "ymap_box_occluders demo_settings_none = True"
    "ymap_model_occluders demo_settings_none = True" "ymap_car_generators demo_settings_none = True"
    by (simp_all add: demo_settings_none_def)
  have a0: "process_child demo_ymap_ext demo_settings_none (children demo_map ! 0) demo_state =
     (children demo_map ! 0, demo_state, None)"
    using ymap_from_object_gating [where s = demo_settings_none and c = "children demo_map ! 0"
        and ext = demo_ymap_ext and st = demo_state and obj = demo_map] kids off by blast
  have a1: "process_child demo_ymap_ext demo_settings_none (children demo_map ! 1) demo_state =
     (children demo_map ! 1, demo_state, None)"
    using ymap_from_object_gating [where s = demo_settings_none and c = "children demo_map ! 1"
        and ext = demo_ymap_ext and st = demo_state and obj = demo_map] kids off by blast
  have a2: "process_child demo_ymap_ext demo_settings_none (children demo_map ! 2) demo_state =
     (children demo_map ! 2, demo_state, None)"
    using ymap_from_object_gating [where s = demo_settings_none and c = "children demo_map ! 2"
        and ext = demo_ymap_ext and st = demo_state and obj = demo_map] kids off by blast
  have a3: "process_child demo_ymap_ext demo_settings_none (children demo_map ! 3) demo_state =
     (children demo_map ! 3, demo_state, None)"
    using ymap_from_object_gating [where s = demo_settings_none and c = "children demo_map ! 3"
        and ext = demo_ymap_ext and st = demo_state and obj = demo_map] kids off by blast
  obtain y where y: "outcome (ymap_from_object demo_ymap_ext demo_settings demo_map) = Inr y"
    using ymap_from_object_outcome [of demo_ymap_ext demo_settings demo_map] demo_map_run by auto
  obtain z where z: "outcome (ymap_from_object demo_ymap_ext demo_settings_no_boxes demo_map) = Inr z"
    using ymap_from_object_outcome [of demo_ymap_ext demo_settings_no_boxes demo_map]
      demo_map_run_no_boxes by auto
  have empty: "m_entities (new_CMapData demo_ymap_ext) = []"
    "m_box_occluders (new_CMapData demo_ymap_ext) = []"
    "m_occlude_models (new_CMapData demo_ymap_ext) = []"
    "m_car_generators (new_CMapData demo_ymap_ext) = []"
    by (simp_all add: demo_ymap_ext_def demo_cmapdata_def)
  from ymap_from_object_gating [where s = demo_settings and c = demo_map
        and ext = demo_ymap_ext and st = demo_state and obj = demo_map] y
  have on: "length (m_entities y) = 1 \<and> length (m_box_occluders y) = 1 \<and>
      length (m_occlude_models y) = 1 \<and> length (m_car_generators y) = 1 \<and>
      length (diagnostics (ymap_from_object demo_ymap_ext demo_settings demo_map)) = 2"
    by (simp add: empty demo_settings_def demo_map_def demo_obj_def demo_rotated_def tilted_def
        demo_quad_obj_def demo_mesh_obj_def model_admitted_def box_diag_def model_diag_def
        cargen_diag_def)
  from ymap_from_object_gating [where s = demo_settings_no_boxes and c = demo_map
        and ext = demo_ymap_ext and st = demo_state and obj = demo_map] z
  have nb: "length (m_entities z) = 1 \<and> m_box_occluders z = [] \<and>
      length (m_occlude_models z) = 1 \<and> length (m_car_generators z) = 1 \<and>
      diagnostics (ymap_from_object demo_ymap_ext demo_settings_no_boxes demo_map) = []"
    by (simp add: empty demo_settings_no_boxes_def demo_map_def demo_obj_def demo_rotated_def
        tilted_def demo_quad_obj_def demo_mesh_obj_def model_admitted_def box_diag_def
        model_diag_def cargen_diag_def)
  show ?thesis using a0 a1 a2 a3 y z on nb by blast
qed

subsection \<open>The encoders\<close>

text \<open>
  C2: the record \<open>entity_from_obj\<close> returns carries its placement kind as its type.
  When that kind is not \<open>CMloInstanceDef\<close>, the rotation of the record is the inverse
  of the quaternion of the object's Euler rotation; when it is \<open>CMloInstanceDef\<close>, the
  rotation is that quaternion itself. The kind is the one the constructor \<open>Entity()\<close>
  declares, and the Euler rotation is the one the object had on entry.
\<close>

theorem entity_from_obj_rotation:
  "(e_type (snd (entity_from_obj ext obj)) \<noteq> ''CMloInstanceDef'' \<longrightarrow>
      e_rotation (snd (entity_from_obj ext obj)) =
        invert ext (to_quaternion ext (rotation_euler obj))) \<and>
   (e_type (snd (entity_from_obj ext obj)) = ''CMloInstanceDef'' \<longrightarrow>
      e_rotation (snd (entity_from_obj ext obj)) = to_quaternion ext (rotation_euler obj)) \<and>
   e_type (snd (entity_from_obj ext obj)) = e_type (new_Entity ext) \<and>
   rotation_euler (fst (entity_from_obj ext obj)) = rotation_euler obj"
  by (simp add: entity_from_obj_def Let_def)

theorem entity_from_obj_rotation_witness:
  "e_type (snd (entity_from_obj demo_ymap_ext
      (demo_rotated ''Prop'' (OTHER_SOLLUM_TYPE ''DRAWABLE'') (Euler 0 0 1 XYZ)))) = ''CEntityDef'' \<and>
   e_rotation (snd (entity_from_obj demo_ymap_ext
      (demo_rotated ''Prop'' (OTHER_SOLLUM_TYPE ''DRAWABLE'') (Euler 0 0 1 XYZ)))) =
     Quaternion (cos (1 / 2)) 0 0 (- sin (1 / 2)) \<and>
   e_type (snd (entity_from_obj (demo_ymap_ext\<lparr>new_Entity := demo_entity\<lparr>e_type := ''CMloInstanceDef''\<rparr>\<rparr>)
      (demo_rotated ''Prop'' (OTHER_SOLLUM_TYPE ''DRAWABLE'') (Euler 0 0 1 XYZ)))) = ''CMloInstanceDef'' \<and>
   e_rotation (snd (entity_from_obj (demo_ymap_ext\<lparr>new_Entity := demo_entity\<lparr>e_type := ''CMloInstanceDef''\<rparr>\<rparr>)
      (demo_rotated ''Prop'' (OTHER_SOLLUM_TYPE ''DRAWABLE'') (Euler 0 0 1 XYZ)))) =
     Quaternion (cos (1 / 2)) 0 0 (sin (1 / 2))"
proof -
  let ?g = "demo_rotated ''Prop'' (OTHER_SOLLUM_TYPE ''DRAWABLE'') (Euler 0 0 1 XYZ)"
  let ?ext2 = "demo_ymap_ext\<lparr>new_Entity := demo_entity\<lparr>e_type := ''CMloInstanceDef''\<rparr>\<rparr>"
  have t1: "e_type (new_Entity demo_ymap_ext) = ''CEntityDef''"
    by (simp add: demo_ymap_ext_def demo_entity_def)
  have t2: "e_type (new_Entity ?ext2) = ''CMloInstanceDef''"
    by simp
  have q: "euler_to_quaternion (rotation_euler ?g) = Quaternion (cos (1 / 2)) 0 0 (sin (1 / 2))"
    by (simp add: demo_rotated_def euler_to_quaternion_def quaternion_mul_def)
  have qi: "quaternion_invert (Quaternion (cos (1 / 2)) 0 0 (sin (1 / 2))) =
      Quaternion (cos (1 / 2)) 0 0 (- sin (1 / 2))"
    by (simp add: quaternion_invert_def Let_def)
  have c1: "to_quaternion demo_ymap_ext = euler_to_quaternion" "invert demo_ymap_ext = quaternion_invert"
    "to_quaternion ?ext2 = euler_to_quaternion"
    by (simp_all add: demo_ymap_ext_def)
  from entity_from_obj_rotation [of demo_ymap_ext ?g] t1
  have a: "e_type (snd (entity_from_obj demo_ymap_ext ?g)) = ''CEntityDef''"
    and b: "e_rotation (snd (entity_from_obj demo_ymap_ext ?g)) =
      Quaternion (cos (1 / 2)) 0 0 (- sin (1 / 2))"
    by (simp_all add: c1 q qi)
  from entity_from_obj_rotation [of ?ext2 ?g] t2
  have c: "e_type (snd (entity_from_obj ?ext2 ?g)) = ''CMloInstanceDef''"
    and d: "e_rotation (snd (entity_from_obj ?ext2 ?g)) = Quaternion (cos (1 / 2)) 0 0 (sin (1 / 2))"
    by (simp_all add: c1 q)
  show ?thesis using a b c d by blast
qed

text \<open>
  C5: for an object with a mesh, the buffer \<open>model_from_obj\<close> builds from the
  triangulated mesh holds twelve bytes for every vertex and one byte for every vertex
  index of every polygon. When its length is the number of vertices times 12 plus the
  number of polygons times 3, a record is returned, with that buffer and its length;
  when it is not, the routine raises the assertion error and returns no record.
\<close>

theorem model_from_obj_buffer_size:
  assumes "data obj = Some m"
  shows "let mesh = quads_convert_to_tris ext m;
             buffer = occlusion_model_obj_get_data_buffer ext (set_data (Some mesh) obj) mesh
         in length buffer = length (vertices mesh) * 12 + length (concat (polygons mesh)) \<and>
            (length buffer = length (vertices mesh) * 12 + length (polygons mesh) * 3 \<longrightarrow>
               (\<exists>model. snd (snd (model_from_obj ext obj st)) = Inr model \<and>
                  om_verts model = buffer \<and>
                  om_data_size model = int (length buffer) \<and>
                  om_num_verts_in_bytes model = int (length (vertices mesh)) * 12 \<and>
                  om_num_tris model = int (length (polygons mesh)) OR 0x8000)) \<and>
            (length buffer \<noteq> length (vertices mesh) * 12 + length (polygons mesh) * 3 \<longrightarrow>
               snd (snd (model_from_obj ext obj st)) = Inl AssertionError)"
  using assms
  by (simp add: Let_def model_from_obj_eq length_data_buffer occlude_model_of_def)

theorem model_from_obj_buffer_size_witness:
  "(\<exists>model. snd (snd (model_from_obj demo_ymap_ext demo_quad_obj demo_state)) = Inr model \<and>
      length (om_verts model) = 4 * 12 + 2 * 3 \<and> om_data_size model = 54 \<and>
      om_num_verts_in_bytes model = 48) \<and>
   snd (snd (model_from_obj demo_ymap_ext demo_pentagon_obj demo_state)) = Inl AssertionError"
proof -
  have d1: "data demo_quad_obj =
      Some (Mesh [Vector 0 0 0, Vector 1 0 0, Vector 1 1 0, Vector 0 1 0] [[0, 1, 2, 3]])"
    by (simp add: demo_quad_obj_def demo_mesh_obj_def)
  have d2: "data demo_pentagon_obj =
      Some (Mesh [Vector 0 0 0, Vector 1 0 0, Vector 1 1 0, Vector 0 1 0, Vector 0 2 0] [[0, 1, 2, 3, 4]])"
    by (simp add: demo_pentagon_obj_def demo_mesh_obj_def)
  show ?thesis
    using model_from_obj_buffer_size [OF d1, of demo_ymap_ext demo_state]
      model_from_obj_buffer_size [OF d2, of demo_ymap_ext demo_state]
    by (auto simp: Let_def demo_ymap_ext_def)
qed




text \<open>
  C10: the loop over model occluders skips a mesh of more than 256 vertices with a
  warning, and encodes a mesh of 256 vertices or fewer. For a mesh it encodes, when the
  triangulation keeps the vertices and leaves every polygon with indices below the
  number of vertices, every index is at most 255, and the index bytes of the record,
  read back as numbers, are the indices themselves: no index is reduced modulo 256.
\<close>

theorem model_occluder_indices_fit:
  assumes "sollum_type model_obj = YMAP_MODEL_OCCLUDER"
    and "data model_obj = Some mesh"
    and "length (vertices (quads_convert_to_tris ext mesh)) = length (vertices mesh)"
    and "\<forall>p\<in>set (polygons (quads_convert_to_tris ext mesh)).
           \<forall>i\<in>set p. i < length (vertices (quads_convert_to_tris ext mesh))"
  shows "(length (vertices mesh) > 256 \<longrightarrow>
            model_loop ext [model_obj] st =
              ([model_obj],
               logger WARNING (''Object '' @ name model_obj
                  @ '' has too many vertices and will be skipped. It can not have more than 256 vertices.'') st,
               None)) \<and>
         (length (vertices mesh) \<le> 256 \<longrightarrow>
            (\<forall>i\<in>set (concat (polygons (quads_convert_to_tris ext mesh))). i \<le> 255) \<and>
            (\<forall>objs st'. model_loop ext [model_obj] st = (objs, st', None) \<longrightarrow>
               (\<exists>model. m_occlude_models (st_ymap st') = m_occlude_models (st_ymap st) @ [model] \<and>
                  map unat (drop (12 * length (vertices (quads_convert_to_tris ext mesh))) (om_verts model)) =
                    concat (polygons (quads_convert_to_tris ext mesh)))))"
proof (intro conjI impI)
  assume "length (vertices mesh) > 256"
  then show "model_loop ext [model_obj] st =
              ([model_obj],
               logger WARNING (''Object '' @ name model_obj
                  @ '' has too many vertices and will be skipped. It can not have more than 256 vertices.'') st,
               None)"
    using assms(1,2) by simp
next
  let ?m = "quads_convert_to_tris ext mesh"
  assume le: "length (vertices mesh) \<le> 256"
  show small: "\<forall>i\<in>set (concat (polygons ?m)). i \<le> 255"
  proof
    fix i assume "i \<in> set (concat (polygons ?m))"
    then obtain p where "p \<in> set (polygons ?m)" "i \<in> set p" by auto
    with assms(4) have "i < length (vertices ?m)" by blast
    with assms(3) le show "i \<le> 255" by simp
  qed
  show "\<forall>objs st'. model_loop ext [model_obj] st = (objs, st', None) \<longrightarrow>
               (\<exists>model. m_occlude_models (st_ymap st') = m_occlude_models (st_ymap st) @ [model] \<and>
                  map unat (drop (12 * length (vertices ?m)) (om_verts model)) = concat (polygons ?m))"
  proof (intro allI impI)
    fix objs st'
    assume run: "model_loop ext [model_obj] st = (objs, st', None)"
    have adm: "model_admitted model_obj"
      using assms(1,2) le by (simp add: model_admitted_def)
    have tri: "triangulated ext model_obj = set_data (Some ?m) model_obj"
      using assms(2) by (simp add: triangulated_def)
    from model_loop_ok [OF run] adm tri
    have recs: "m_occlude_models (st_ymap st') = m_occlude_models (st_ymap st) @
        [occlude_model_of ext (set_data (Some ?m) model_obj) ?m]"
      by simp
    have "map unat (drop (12 * length (vertices ?m))
            (om_verts (occlude_model_of ext (set_data (Some ?m) model_obj) ?m))) = concat (polygons ?m)"
      using unat_of_nat_small [OF small] by (simp add: occlude_model_of_def drop_data_buffer)
    with recs show "\<exists>model. m_occlude_models (st_ymap st') = m_occlude_models (st_ymap st) @ [model] \<and>
        map unat (drop (12 * length (vertices ?m)) (om_verts model)) = concat (polygons ?m)"
      by blast
  qed
qed

theorem model_occluder_indices_fit_witness:
  "length (vertices (Mesh (replicate 256 (Vector 0 0 0)) [[0, 1, 255]])) = 256 \<and>
   snd (snd (model_loop demo_ymap_ext [demo_full_obj] demo_state)) = None \<and>
   (\<exists>model. m_occlude_models (st_ymap (fst (snd (model_loop demo_ymap_ext [demo_full_obj] demo_state))))
        = [model] \<and>
      map unat (drop (12 * 256) (om_verts model)) = [0, 1, 255])"
proof -
  let ?mesh = "Mesh (replicate 256 (Vector 0 0 0)) [[0, 1, 255]]"
  have tris: "quads_convert_to_tris demo_ymap_ext ?mesh = ?mesh"
    by (simp add: demo_ymap_ext_def)
  have a1: "sollum_type demo_full_obj = YMAP_MODEL_OCCLUDER"
    and a2: "data demo_full_obj = Some ?mesh"
    by (simp_all add: demo_full_obj_def demo_mesh_obj_def)
  have a3: "length (vertices (quads_convert_to_tris demo_ymap_ext ?mesh)) = length (vertices ?mesh)"
    by (simp only: tris)
  have a4: "\<forall>p\<in>set (polygons (quads_convert_to_tris demo_ymap_ext ?mesh)).
           \<forall>i\<in>set p. i < length (vertices (quads_convert_to_tris demo_ymap_ext ?mesh))"
    unfolding tris by simp
  obtain objs st' err where run: "model_loop demo_ymap_ext [demo_full_obj] demo_state = (objs, st', err)"
    by (cases "model_loop demo_ymap_ext [demo_full_obj] demo_state") auto
  have poly: "length (concat (polygons (quads_convert_to_tris demo_ymap_ext ?mesh))) =
      3 * length (polygons (quads_convert_to_tris demo_ymap_ext ?mesh))"
    unfolding tris by simp
  have err: "err = None"
    using run a1 a2 poly by (simp add: model_from_obj_eq split: if_splits)
  have empty: "m_occlude_models (st_ymap demo_state) = []"
    by (simp add: demo_state_def demo_cmapdata_def)
  have shape: "length (vertices (quads_convert_to_tris demo_ymap_ext ?mesh)) = 256"
    "concat (polygons (quads_convert_to_tris demo_ymap_ext ?mesh)) = [0, 1, 255]"
    unfolding tris by simp_all
  have le: "length (vertices ?mesh) \<le> 256" by simp
  have st': "st' = fst (snd (model_loop demo_ymap_ext [demo_full_obj] demo_state))"
    and e: "snd (snd (model_loop demo_ymap_ext [demo_full_obj] demo_state)) = None"
    using run err by (simp_all only: fst_conv snd_conv)
  from model_occluder_indices_fit [OF a1 a2 a3 a4, of demo_state] run err le
  have "\<exists>model. m_occlude_models (st_ymap st') = m_occlude_models (st_ymap demo_state) @ [model] \<and>
      map unat (drop (12 * length (vertices (quads_convert_to_tris demo_ymap_ext ?mesh))) (om_verts model)) =
        concat (polygons (quads_convert_to_tris demo_ymap_ext ?mesh))"
    by blast
  then have "\<exists>model. m_occlude_models (st_ymap st') = [model] \<and>
      map unat (drop (12 * 256) (om_verts model)) = [0, 1, 255]"
    by (simp only: shape empty append_Nil)
  then show ?thesis
    unfolding st' using e by simp
qed

subsection \<open>The record of a map export\<close>

text \<open>
  C3, evaluated on the code: of the six fields of the block, five are copied from the
  block of the container's properties. The flags are not: the assignment that should
  copy them writes an attribute \<open>versiflagson\<close>, which the record did not have, and
  the flags of the record stay what \<open>CMapData()\<close> made them.
\<close>

theorem ymap_from_object_block:
  assumes "outcome (ymap_from_object ext s obj) = Inr y"
  shows "b_flags (m_block y) = b_flags (m_block (new_CMapData ext)) \<and>
         b_versiflagson (m_block y) = Some (bp_flags (yp_block (ymap_properties obj))) \<and>
         b_version (m_block y) = bp_version (yp_block (ymap_properties obj)) \<and>
         b_name (m_block y) = bp_name (yp_block (ymap_properties obj)) \<and>
         b_exported_by (m_block y) = bp_exported_by (yp_block (ymap_properties obj)) \<and>
         b_owner (m_block y) = bp_owner (yp_block (ymap_properties obj)) \<and>
         b_time (m_block y) = bp_time (yp_block (ymap_properties obj))"
proof -
  obtain cs' st err where run: "children_loop ext s (children obj) (init_state ext obj) = (cs', st, err)"
    by (cases "children_loop ext s (children obj) (init_state ext obj)") auto
  have "err = None"
    using assms ymap_from_object_outcome [of ext s obj] run by auto
  with run have ok: "children_loop ext s (children obj) (init_state ext obj) = (cs', st, None)"
    by simp
  from ymap_from_object_ok(4) [OF ok] assms init_frame(1,2) [OF run]
  show ?thesis by auto
qed

theorem ymap_from_object_block_witness:
  "(\<exists>y. outcome (ymap_from_object demo_ymap_ext demo_settings demo_map_empty_group) = Inr y \<and>
      b_flags (m_block y) = 0 \<and> b_versiflagson (m_block y) = Some 5 \<and> b_version (m_block y) = 1) \<and>
   bp_flags (yp_block (ymap_properties demo_map_empty_group)) = 5"
proof -
  obtain y where y: "outcome (ymap_from_object demo_ymap_ext demo_settings demo_map_empty_group) = Inr y"
    using ymap_from_object_outcome [of demo_ymap_ext demo_settings demo_map_empty_group]
      demo_empty_run by auto
  have p: "bp_flags (yp_block (ymap_properties demo_map_empty_group)) = 5"
    "bp_version (yp_block (ymap_properties demo_map_empty_group)) = 1"
    "b_flags (m_block (new_CMapData demo_ymap_ext)) = 0"
    by (simp_all add: demo_map_empty_group_def demo_obj_def demo_ymap_properties_def demo_block_def
        demo_ymap_ext_def demo_cmapdata_def)
  from ymap_from_object_block [OF y] y p show ?thesis by auto
qed

text \<open>
  C4, as the code has it: in the record of an export that returns one, the content
  flag \<open>has_occl\<close> is set if and only if it was set on the container before the export
  or a group of box occluders or of model occluders whose setting is on is among the
  children of the container, whether or not any occluder of the group is included. So
  it is set whenever the export has included an occluder of either kind.
\<close>

theorem ymap_from_object_has_occl:
  assumes "outcome (ymap_from_object ext s obj) = Inr y"
  shows "has_occl (m_content_flags y) =
           (has_occl (yp_content_flags (ymap_properties obj)) \<or>
            (\<exists>c\<in>set (children obj).
               (ymap_box_occluders s = False \<and> sollum_type c = YMAP_BOX_OCCLUDER_GROUP) \<or>
               (ymap_model_occluders s = False \<and> sollum_type c = YMAP_MODEL_OCCLUDER_GROUP))) \<and>
         (m_box_occluders y \<noteq> m_box_occluders (new_CMapData ext) \<or>
          m_occlude_models y \<noteq> m_occlude_models (new_CMapData ext) \<longrightarrow>
            has_occl (m_content_flags y))"
proof -
  obtain cs' st err where run: "children_loop ext s (children obj) (init_state ext obj) = (cs', st, err)"
    by (cases "children_loop ext s (children obj) (init_state ext obj)") auto
  have "err = None"
    using assms ymap_from_object_outcome [of ext s obj] run by auto
  with run have ok: "children_loop ext s (children obj) (init_state ext obj) = (cs', st, None)"
    by simp
  note cl = children_loop_ok [OF ok]
  from ymap_from_object_ok(4) [OF ok] assms
  have y: "m_content_flags y = yp_content_flags (st_props st)"
    "m_box_occluders y = m_box_occluders (st_ymap st)"
    "m_occlude_models y = m_occlude_models (st_ymap st)"
    by auto
  have iff: "has_occl (yp_content_flags (st_props st)) =
      (has_occl (yp_content_flags (ymap_properties obj)) \<or>
       (\<exists>c\<in>set (children obj). box_group_on s c \<or> model_group_on s c))"
    using cl by (auto simp: init_state_def set_has_occl_def)
  have a: "has_occl (m_content_flags y) =
           (has_occl (yp_content_flags (ymap_properties obj)) \<or>
            (\<exists>c\<in>set (children obj).
               (ymap_box_occluders s = False \<and> sollum_type c = YMAP_BOX_OCCLUDER_GROUP) \<or>
               (ymap_model_occluders s = False \<and> sollum_type c = YMAP_MODEL_OCCLUDER_GROUP)))"
    using iff y(1) by (simp add: box_group_on_def model_group_on_def)
  have b: "has_occl (m_content_flags y)"
    if "m_box_occluders y \<noteq> m_box_occluders (new_CMapData ext) \<or>
         m_occlude_models y \<noteq> m_occlude_models (new_CMapData ext)"
  proof -
    from that have "concat (map (child_boxes ext s) (children obj)) \<noteq> [] \<or>
        concat (map (child_models ext s) (children obj)) \<noteq> []"
      using cl y by (auto simp: init_state_def)
    then have "\<exists>c\<in>set (children obj). box_group_on s c \<or> model_group_on s c"
      by (auto dest!: concat_ne_Nil simp: child_boxes_def child_models_def split: if_splits)
    then show ?thesis using iff y(1) by auto
  qed
  show ?thesis using a b by blast
qed

theorem ymap_from_object_has_occl_witness:
  "\<not> has_occl (yp_content_flags (ymap_properties demo_map)) \<and>
   (\<exists>c\<in>set (children demo_map).
      ymap_box_occluders demo_settings = False \<and> sollum_type c = YMAP_BOX_OCCLUDER_GROUP) \<and>
   (\<exists>y. outcome (ymap_from_object demo_ymap_ext demo_settings demo_map) = Inr y \<and>
      has_occl (m_content_flags y))"
proof -
  obtain y where y: "outcome (ymap_from_object demo_ymap_ext demo_settings demo_map) = Inr y"
    using ymap_from_object_outcome [of demo_ymap_ext demo_settings demo_map] demo_map_run by auto
  have a: "\<not> has_occl (yp_content_flags (ymap_properties demo_map))"
    by (simp add: demo_map_def demo_obj_def demo_ymap_properties_def)
  have b: "\<exists>c\<in>set (children demo_map).
      ymap_box_occluders demo_settings = False \<and> sollum_type c = YMAP_BOX_OCCLUDER_GROUP"
    by (simp add: demo_map_def demo_obj_def demo_settings_def)
  from ymap_from_object_has_occl [OF y] b have "has_occl (m_content_flags y)" by blast
  with y a b show ?thesis by blast
qed

text \<open>
  C4, as stated, fails: for a container whose only child is a group of box occluders
  without children, the export returns a record with the flag set and with no occluder
  of either kind.
\<close>

theorem ymap_from_object_has_occl_counterexample:
  "\<not> isl (outcome (ymap_from_object demo_ymap_ext demo_settings demo_map_empty_group)) \<and>
   has_occl (m_content_flags (projr (outcome (ymap_from_object demo_ymap_ext demo_settings demo_map_empty_group)))) \<and>
   m_box_occluders (projr (outcome (ymap_from_object demo_ymap_ext demo_settings demo_map_empty_group))) = [] \<and>
   m_occlude_models (projr (outcome (ymap_from_object demo_ymap_ext demo_settings demo_map_empty_group))) = []"
  using ymap_from_object_ok(4) [OF demo_empty_run]
  by (simp add: set_has_occl_def init_state_def demo_ymap_ext_def demo_cmapdata_def)

subsection \<open>What an export changes in the scene\<close>

text \<open>
  C9, as the code has it: of what the exporter reads of the scene (names, roles, types,
  transforms, meshes and property groups), an export, whatever its outcome, leaves the
  container as it was but for its children and its map properties. Every child is as
  it was but for its own children, and each of these is as it was, or is an object of
  an entity group whose setting is on, with the name it has after \<open>entity_from_obj\<close>
  has assigned it its lower-cased name without the marker of a missing archetype, or is
  an admitted object of a model-occluder group whose setting is on, with its mesh
  triangulated (\<open>child_rel\<close>). Of the map properties, the parent, the flags, the block
  and the content bits other than \<open>has_occl\<close> are as they were; \<open>has_occl\<close> is never
  cleared; the extents are as they were when the export raises, and are those the
  extents collaborator computes when it returns a record. In that case the children
  are exactly as \<open>child_after\<close> describes. The active object is changed only to an
  admitted object of a model-occluder group whose setting is on.
\<close>

theorem ymap_from_object_frame:
  "set_ymap_properties (ymap_properties obj)
     (set_children (children obj) (scene (ymap_from_object ext s obj))) = obj \<and>
   list_all2 (child_rel ext s) (children obj) (children (scene (ymap_from_object ext s obj))) \<and>
   yp_parent (ymap_properties (scene (ymap_from_object ext s obj))) = yp_parent (ymap_properties obj) \<and>
   yp_flags (ymap_properties (scene (ymap_from_object ext s obj))) = yp_flags (ymap_properties obj) \<and>
   yp_block (ymap_properties (scene (ymap_from_object ext s obj))) = yp_block (ymap_properties obj) \<and>
   other_content_bits (yp_content_flags (ymap_properties (scene (ymap_from_object ext s obj)))) =
     other_content_bits (yp_content_flags (ymap_properties obj)) \<and>
   (has_occl (yp_content_flags (ymap_properties obj)) \<longrightarrow>
      has_occl (yp_content_flags (ymap_properties (scene (ymap_from_object ext s obj))))) \<and>
   (\<forall>e. outcome (ymap_from_object ext s obj) = Inl e \<longrightarrow>
      ymap_properties (scene (ymap_from_object ext s obj)) =
        (ymap_properties obj)\<lparr>yp_content_flags :=
           yp_content_flags (ymap_properties (scene (ymap_from_object ext s obj)))\<rparr>) \<and>
   (\<forall>y. outcome (ymap_from_object ext s obj) = Inr y \<longrightarrow>
      children (scene (ymap_from_object ext s obj)) = map (child_after ext s) (children obj) \<and>
      (let before = set_ymap_properties
             ((ymap_properties obj)\<lparr>yp_content_flags :=
                 yp_content_flags (ymap_properties (scene (ymap_from_object ext s obj)))\<rparr>)
             (scene (ymap_from_object ext s obj))
       in ymap_properties (scene (ymap_from_object ext s obj)) =
            (ymap_properties before)\<lparr>
               yp_entities_extents_min := fst (fst (generate_ymap_extents ext before)),
               yp_entities_extents_max := snd (fst (generate_ymap_extents ext before)),
               yp_streaming_extents_min := fst (snd (generate_ymap_extents ext before)),
               yp_streaming_extents_max := snd (snd (generate_ymap_extents ext before))\<rparr>)) \<and>
   (active_object (ymap_from_object ext s obj) = None \<or>
    (\<exists>c\<in>set (children obj). model_group_on s c \<and>
       (\<exists>g\<in>set (children c). model_admitted g \<and>
          active_object (ymap_from_object ext s obj) = Some (name g))))"
proof -
  obtain cs' st err where run: "children_loop ext s (children obj) (init_state ext obj) = (cs', st, err)"
    by (cases "children_loop ext s (children obj) (init_state ext obj)") auto
  note fr = children_loop_frame [OF run]
  note inf = init_frame [OF run]
  have rel: "list_all2 (child_rel ext s) (children obj) cs'" using fr by simp
  have act: "st_active st = None \<or>
    (\<exists>c\<in>set (children obj). model_group_on s c \<and>
       (\<exists>g\<in>set (children c). model_admitted g \<and> st_active st = Some (name g)))"
    using fr by (simp add: init_state_def)
  have "st_props st = ymap_properties obj \<or>
      st_props st = (ymap_properties obj)\<lparr>yp_content_flags :=
           (yp_content_flags (ymap_properties obj))\<lparr>has_occl := True\<rparr>\<rparr>"
    using fr by (simp add: init_state_def set_has_occl_def)
  then have props: "st_props st = (ymap_properties obj)\<lparr>yp_content_flags := yp_content_flags (st_props st)\<rparr>"
    by auto
  show ?thesis
  proof (cases err)
    case (Some e)
    note r = ymap_from_object_err [OF run [unfolded Some]]
    show ?thesis
      unfolding r using rel act inf(2-6) props by simp
  next
    case None
    note ok = run [unfolded None]
    note r = ymap_from_object_ok [OF ok]
    note cl = children_loop_ok [OF ok]
    let ?obj1 = "set_ymap_properties (st_props st) (set_children cs' obj)"
    let ?p2 = "(st_props st)\<lparr>
                yp_entities_extents_min := fst (fst (generate_ymap_extents ext ?obj1)),
                yp_entities_extents_max := snd (fst (generate_ymap_extents ext ?obj1)),
                yp_streaming_extents_min := fst (snd (generate_ymap_extents ext ?obj1)),
                yp_streaming_extents_max := snd (snd (generate_ymap_extents ext ?obj1))\<rparr>"
    have sc: "scene (ymap_from_object ext s obj) = set_ymap_properties ?p2 (set_children cs' obj)"
      by (rule r(1))
    have cf: "yp_content_flags ?p2 = yp_content_flags (st_props st)" by simp
    have before: "set_ymap_properties
             ((ymap_properties obj)\<lparr>yp_content_flags := yp_content_flags (st_props st)\<rparr>)
             (set_ymap_properties ?p2 (set_children cs' obj)) = ?obj1"
      using props by simp
    have no_err: "outcome (ymap_from_object ext s obj) \<noteq> Inl e" for e
      using r(4) by simp
    have cs: "cs' = map (child_after ext s) (children obj)" using cl by simp
    have part1: "set_ymap_properties (ymap_properties obj)
        (set_children (children obj) (scene (ymap_from_object ext s obj))) = obj"
      unfolding sc by simp
    have part2: "list_all2 (child_rel ext s) (children obj) (children (scene (ymap_from_object ext s obj)))"
      unfolding sc using rel by simp
    have part3: "yp_parent (ymap_properties (scene (ymap_from_object ext s obj))) = yp_parent (ymap_properties obj)"
      "yp_flags (ymap_properties (scene (ymap_from_object ext s obj))) = yp_flags (ymap_properties obj)"
      "yp_block (ymap_properties (scene (ymap_from_object ext s obj))) = yp_block (ymap_properties obj)"
      "other_content_bits (yp_content_flags (ymap_properties (scene (ymap_from_object ext s obj)))) =
         other_content_bits (yp_content_flags (ymap_properties obj))"
      "has_occl (yp_content_flags (ymap_properties obj)) \<longrightarrow>
         has_occl (yp_content_flags (ymap_properties (scene (ymap_from_object ext s obj))))"
      unfolding sc using inf(2-6) by simp_all
    have part4: "children (scene (ymap_from_object ext s obj)) = map (child_after ext s) (children obj)"
      unfolding sc using cs by simp
    have part5: "(let before = set_ymap_properties
             ((ymap_properties obj)\<lparr>yp_content_flags :=
                 yp_content_flags (ymap_properties (scene (ymap_from_object ext s obj)))\<rparr>)
             (scene (ymap_from_object ext s obj))
       in ymap_properties (scene (ymap_from_object ext s obj)) =
            (ymap_properties before)\<lparr>
               yp_entities_extents_min := fst (fst (generate_ymap_extents ext before)),
               yp_entities_extents_max := snd (fst (generate_ymap_extents ext before)),
               yp_streaming_extents_min := fst (snd (generate_ymap_extents ext before)),
               yp_streaming_extents_max := snd (snd (generate_ymap_extents ext before))\<rparr>)"
    proof -
      have a: "ymap_properties (scene (ymap_from_object ext s obj)) = ?p2"
        unfolding sc by simp
      have b: "set_ymap_properties
             ((ymap_properties obj)\<lparr>yp_content_flags :=
                 yp_content_flags (ymap_properties (scene (ymap_from_object ext s obj)))\<rparr>)
             (scene (ymap_from_object ext s obj)) = ?obj1"
        unfolding a cf unfolding sc by (rule before)
      show ?thesis
        unfolding Let_def b unfolding a by simp
    qed
    have part6: "active_object (ymap_from_object ext s obj) = None \<or>
      (\<exists>c\<in>set (children obj). model_group_on s c \<and>
         (\<exists>g\<in>set (children c). model_admitted g \<and>
            active_object (ymap_from_object ext s obj) = Some (name g)))"
      unfolding r(2) by (rule act)
    show ?thesis
      using part1 part2 part3 part4 part5 part6 no_err by blast
  qed
qed

theorem ymap_from_object_frame_witness:
  "(\<exists>y. outcome (ymap_from_object demo_ymap_ext demo_settings demo_map) = Inr y) \<and>
   children (scene (ymap_from_object demo_ymap_ext demo_settings demo_map)) =
     map (child_after demo_ymap_ext demo_settings) (children demo_map) \<and>
   outcome (ymap_from_object demo_ymap_ext demo_settings demo_map_failing) = Inl AttributeError \<and>
   has_occl (yp_content_flags (ymap_properties demo_map_failing)) \<and>
   has_occl (yp_content_flags (ymap_properties
      (scene (ymap_from_object demo_ymap_ext demo_settings demo_map_failing)))) \<and>
   ymap_properties (scene (ymap_from_object demo_ymap_ext demo_settings demo_map_failing)) =
     (ymap_properties demo_map_failing)\<lparr>yp_content_flags :=
        yp_content_flags (ymap_properties
          (scene (ymap_from_object demo_ymap_ext demo_settings demo_map_failing)))\<rparr>"
proof -
  obtain y where y: "outcome (ymap_from_object demo_ymap_ext demo_settings demo_map) = Inr y"
    using ymap_from_object_outcome [of demo_ymap_ext demo_settings demo_map] demo_map_run by auto
  have h: "has_occl (yp_content_flags (ymap_properties demo_map_failing))"
    by (simp add: demo_map_failing_def)
  from ymap_from_object_frame [of demo_map demo_ymap_ext demo_settings] y
  have a: "children (scene (ymap_from_object demo_ymap_ext demo_settings demo_map)) =
     map (child_after demo_ymap_ext demo_settings) (children demo_map)"
    by blast
  from ymap_from_object_frame [of demo_map_failing demo_ymap_ext demo_settings] demo_failing_outcome h
  have b: "has_occl (yp_content_flags (ymap_properties
      (scene (ymap_from_object demo_ymap_ext demo_settings demo_map_failing))))"
    and c: "ymap_properties (scene (ymap_from_object demo_ymap_ext demo_settings demo_map_failing)) =
     (ymap_properties demo_map_failing)\<lparr>yp_content_flags :=
        yp_content_flags (ymap_properties
          (scene (ymap_from_object demo_ymap_ext demo_settings demo_map_failing)))\<rparr>"
    by blast+
  show ?thesis using y a b c h demo_failing_outcome by blast
qed

text \<open>
  C9, as stated, fails: the export of the example container, in which no two objects
  have names that differ only in case, renames the entity \<open>Prop (not found)\<close> to
  \<open>prop\<close>, and sets the flag \<open>has_occl\<close> on the properties of the container, where it
  was not set.
\<close>

theorem ymap_from_object_frame_counterexample:
  "name (hd (children (hd (children demo_map)))) = ''Prop (not found)'' \<and>
   name (hd (children (hd (children (scene (ymap_from_object demo_ymap_ext demo_settings demo_map))))))
     = ''prop'' \<and>
   \<not> has_occl (yp_content_flags (ymap_properties demo_map)) \<and>
   has_occl (yp_content_flags (ymap_properties
     (scene (ymap_from_object demo_ymap_ext demo_settings demo_map))))"
proof -
  obtain cs' st err where run:
    "children_loop demo_ymap_ext demo_settings (children demo_map)
       (init_state demo_ymap_ext demo_map) = (cs', st, err)"
    by (cases "children_loop demo_ymap_ext demo_settings (children demo_map)
       (init_state demo_ymap_ext demo_map)") auto
  with demo_map_run have "err = None" by simp
  with run have ok: "children_loop demo_ymap_ext demo_settings (children demo_map)
       (init_state demo_ymap_ext demo_map) = (cs', st, None)" by simp
  note cl = children_loop_ok [OF ok]
  note sc = ymap_from_object_ok(1) [OF ok]
  have cs: "hd cs' = child_after demo_ymap_ext demo_settings (hd (children demo_map))"
    using cl by (simp add: demo_map_def demo_obj_def)
  have grp: "hd (children demo_map) = demo_obj ''Entities'' YMAP_ENTITY_GROUP ''EMPTY'' GTA
        [demo_obj ''Prop (not found)'' (OTHER_SOLLUM_TYPE ''DRAWABLE'') ''MESH'' GTA []]"
    by (simp add: demo_map_def demo_obj_def)
  have nm: "name (hd (children (hd cs'))) = ''prop''"
    unfolding cs grp
    by (simp add: child_after_def entity_group_on_def demo_settings_def demo_obj_def
        fst_entity_from_obj demo_ymap_ext_def ascii_lower_def ascii_lower_char_def
        re_sub_not_found_def replace_def)
  have occ: "has_occl (yp_content_flags (st_props st))"
    using cl by (simp add: demo_map_def demo_obj_def box_group_on_def demo_settings_def
        set_has_occl_def init_state_def)
  have before: "name (hd (children (hd (children demo_map)))) = ''Prop (not found)''"
    "\<not> has_occl (yp_content_flags (ymap_properties demo_map))"
    by (simp_all add: demo_map_def demo_obj_def demo_ymap_properties_def)
  show ?thesis
    unfolding sc using nm occ before by simp
qed

end
